theory Spec2Isabelle
  imports Complex_Main "HOL-Library.Sublist"
begin

section \<open>Python values shared by the modules\<close>

text \<open>
  Python strings are modelled as \<^typ>\<open>string\<close> (lists of bytes, UTF-8 for text beyond
  ASCII).  Every \<^verbatim>\<open>raise\<close> and every failing \<^verbatim>\<open>assert\<close> of the source is a value of
  \<open>error\<close>; a function that may raise returns \<open>error + 'a\<close> with \<open>Inl\<close> for the exception.
\<close>

datatype error =
    ValueError string
  | KeyError string
  | IndexError
  | AssertionError

text \<open>\<^verbatim>\<open>str(n)\<close> for a non-negative Python int: its decimal digits, most significant first.\<close>

definition digit_char :: "nat \<Rightarrow> char" where
  "digit_char d = ''0123456789'' ! d"

fun str_nat :: "nat \<Rightarrow> string" where
  "str_nat n = (if n < 10 then [digit_char n] else str_nat (n div 10) @ [digit_char (n mod 10)])"

declare str_nat.simps [simp del]

text \<open>\<^verbatim>\<open>str(i)\<close> for any Python int.\<close>

definition str_int :: "int \<Rightarrow> string" where
  "str_int i = (if i < 0 then CHR ''-'' # str_nat (nat (- i)) else str_nat (nat i))"

text \<open>
  \<^verbatim>\<open>'{:0wd}'.format(i)\<close>: the digits of \<open>i\<close>, filled with zeros on the left up to a total width
  of \<open>w\<close> characters; the sign of a negative number comes first and counts in the width.
\<close>

definition zero_fill :: "nat \<Rightarrow> string \<Rightarrow> string" where
  "zero_fill w ds = replicate (w - length ds) CHR ''0'' @ ds"

definition format_0d :: "nat \<Rightarrow> int \<Rightarrow> string" where
  "format_0d w i =
     (if i < 0 then CHR ''-'' # zero_fill (w - 1) (str_nat (nat (- i)))
      else zero_fill w (str_nat (nat i)))"

text \<open>\<^verbatim>\<open>sep.join(xs)\<close>.\<close>

fun join :: "string \<Rightarrow> string list \<Rightarrow> string" where
  "join sep [] = []"
| "join sep [x] = x"
| "join sep (x # y # ys) = x @ sep @ join sep (y # ys)"

text \<open>
  \<^verbatim>\<open>s.split(c)\<close> for a separator of one character: \<open>split_acc\<close> scans the string with the
  piece read so far; the result always has at least one piece.
\<close>

fun split_acc :: "char \<Rightarrow> string \<Rightarrow> string \<Rightarrow> string list" where
  "split_acc c cur [] = [cur]"
| "split_acc c cur (x # xs) =
     (if x = c then cur # split_acc c [] xs else split_acc c (cur @ [x]) xs)"

definition split :: "char \<Rightarrow> string \<Rightarrow> string list" where
  "split c s = split_acc c [] s"

text \<open>
  \<^verbatim>\<open>s.replace(old, new)\<close>: the occurrences of \<open>old\<close> are replaced from left to right, without
  overlap.  With an empty \<open>old\<close> Python puts \<open>new\<close> before every character and at the end.
\<close>

function replace :: "string \<Rightarrow> string \<Rightarrow> string \<Rightarrow> string" where
  "replace old new [] = (if old = [] then new else [])"
| "replace old new (c # cs) =
     (if old = [] then new @ c # replace old new cs
      else if prefix old (c # cs) then new @ replace old new (drop (length old) (c # cs))
      else c # replace old new cs)"
  by pat_completeness auto
termination
  by (relation "measure (\<lambda>(old, new, s). length s)") auto

text \<open>
  The times of a cue are Python floats.  Their arithmetic is not modelled: the operations
  that the writers apply to a time are parameters, collected in a record, and the type
  \<open>'f\<close> of the floats is a parameter too.  \<open>float_div x k\<close> is \<^verbatim>\<open>x / k\<close>, \<open>float_mod x k\<close> is
  \<^verbatim>\<open>x % k\<close> and \<open>float_mul x k\<close> is \<^verbatim>\<open>x * k\<close> for an integer literal \<open>k\<close> (the sources only
  use 3600, 60, 1, 100 and 1000); \<open>float_int x\<close> is \<^verbatim>\<open>int(x)\<close>.  \<open>float_time x\<close> tells
  whether \<open>x\<close> is a time, a finite float with \<^verbatim>\<open>0 <= x\<close>.
\<close>

record 'f float_ops =
  float_div :: "'f \<Rightarrow> int \<Rightarrow> 'f"
  float_mod :: "'f \<Rightarrow> int \<Rightarrow> 'f"
  float_mul :: "'f \<Rightarrow> int \<Rightarrow> 'f"
  float_int :: "'f \<Rightarrow> int"
  float_time :: "'f \<Rightarrow> bool"

text \<open>
  What the properties below use of float arithmetic: dividing a time by a positive
  literal, reducing it modulo one and multiplying it by one give times again, and
  \<^verbatim>\<open>int\<close> of a time is not negative.  IEEE arithmetic has these properties.
\<close>

definition sign_respecting :: "'f float_ops \<Rightarrow> bool" where
  "sign_respecting F =
     (\<forall>x k. float_time F x \<and> 0 < k \<longrightarrow>
        float_time F (float_div F x k) \<and> float_time F (float_mod F x k) \<and>
        float_time F (float_mul F x k) \<and> 0 \<le> float_int F x)"

text \<open>
  The operations on the real numbers, without rounding: \<^verbatim>\<open>x % k\<close> has the sign of \<open>k\<close>,
  \<^verbatim>\<open>int(x)\<close> drops the fraction, towards zero.
\<close>

definition exact_ops :: "real float_ops" where
  "exact_ops =
     \<lparr>float_div = (\<lambda>x k. x / of_int k),
      float_mod = (\<lambda>x k. x - of_int k * of_int \<lfloor>x / of_int k\<rfloor>),
      float_mul = (\<lambda>x k. x * of_int k),
      float_int = (\<lambda>x. if 0 \<le> x then \<lfloor>x\<rfloor> else \<lceil>x\<rceil>),
      float_time = (\<lambda>x. 0 \<le> x)\<rparr>"

text \<open>\<^verbatim>\<open>int(b)\<close> for a bool.\<close>

definition int_of_bool :: "bool \<Rightarrow> int" where
  "int_of_bool b = (if b then 1 else 0)"

text \<open>\<^verbatim>\<open>len(s)\<close> counts code points: in UTF-8, the bytes that are not continuation bytes.\<close>

definition len :: "string \<Rightarrow> nat" where
  "len s = length (filter (\<lambda>c. (of_char c :: nat) div 64 \<noteq> 2) s)"

abbreviation NL :: string where
  "NL \<equiv> [CHR 0x0A]"


section \<open>movis/enum.py\<close>

subsection \<open>CacheType\<close>

datatype CacheType = COMPOSITION | LAYER

subsection \<open>AttributeType\<close>

datatype AttributeType = SCALAR | VECTOR2D | VECTOR3D | ANGLE | COLOR

fun AttributeType_value :: "AttributeType \<Rightarrow> int" where
  "AttributeType_value SCALAR = 0"
| "AttributeType_value VECTOR2D = 1"
| "AttributeType_value VECTOR3D = 2"
| "AttributeType_value ANGLE = 3"
| "AttributeType_value COLOR = 4"

text \<open>The \<^verbatim>\<open>if/elif\<close> chain of \<^verbatim>\<open>AttributeType.from_string\<close>, branch by branch.\<close>

definition AttributeType_from_string :: "string \<Rightarrow> error + AttributeType" where
  "AttributeType_from_string s =
     (if s = ''scalar'' then Inr SCALAR
      else if s = ''vector2d'' then Inr VECTOR2D
      else if s = ''vector3d'' then Inr VECTOR3D
      else if s = ''angle'' then Inr ANGLE
      else Inl (ValueError (''Unknown attribute type: '' @ s)))"

subsection \<open>MotionType\<close>

datatype MotionType =
    LINEAR | EASE_IN | EASE_OUT | EASE_IN_OUT | EASE_IN2 | EASE_IN3
  | EASE_IN4 | EASE_IN5 | EASE_IN6 | EASE_IN7 | EASE_IN8 | EASE_IN9
  | EASE_IN10 | EASE_IN12 | EASE_IN14 | EASE_IN16 | EASE_IN18 | EASE_IN20
  | EASE_IN25 | EASE_IN30 | EASE_IN35 | EASE_OUT2 | EASE_OUT3 | EASE_OUT4
  | EASE_OUT5 | EASE_OUT6 | EASE_OUT7 | EASE_OUT8 | EASE_OUT9 | EASE_OUT10
  | EASE_OUT12 | EASE_OUT14 | EASE_OUT16 | EASE_OUT18 | EASE_OUT20 | EASE_OUT25
  | EASE_OUT30 | EASE_OUT35 | EASE_IN_OUT2 | EASE_IN_OUT3 | EASE_IN_OUT4 | EASE_IN_OUT5
  | EASE_IN_OUT6 | EASE_IN_OUT7 | EASE_IN_OUT8 | EASE_IN_OUT9 | EASE_IN_OUT10 | EASE_IN_OUT12
  | EASE_IN_OUT14 | EASE_IN_OUT16 | EASE_IN_OUT18 | EASE_IN_OUT20 | EASE_IN_OUT25 | EASE_IN_OUT30
  | EASE_IN_OUT35

fun MotionType_value :: "MotionType \<Rightarrow> int" where
  "MotionType_value LINEAR = 0"
| "MotionType_value EASE_IN = 1"
| "MotionType_value EASE_OUT = 2"
| "MotionType_value EASE_IN_OUT = 3"
| "MotionType_value EASE_IN2 = 102"
| "MotionType_value EASE_IN3 = 103"
| "MotionType_value EASE_IN4 = 104"
| "MotionType_value EASE_IN5 = 105"
| "MotionType_value EASE_IN6 = 106"
| "MotionType_value EASE_IN7 = 107"
| "MotionType_value EASE_IN8 = 108"
| "MotionType_value EASE_IN9 = 109"
| "MotionType_value EASE_IN10 = 110"
| "MotionType_value EASE_IN12 = 112"
| "MotionType_value EASE_IN14 = 114"
| "MotionType_value EASE_IN16 = 116"
| "MotionType_value EASE_IN18 = 118"
| "MotionType_value EASE_IN20 = 120"
| "MotionType_value EASE_IN25 = 125"
| "MotionType_value EASE_IN30 = 130"
| "MotionType_value EASE_IN35 = 135"
| "MotionType_value EASE_OUT2 = 202"
| "MotionType_value EASE_OUT3 = 203"
| "MotionType_value EASE_OUT4 = 204"
| "MotionType_value EASE_OUT5 = 205"
| "MotionType_value EASE_OUT6 = 206"
| "MotionType_value EASE_OUT7 = 207"
| "MotionType_value EASE_OUT8 = 208"
| "MotionType_value EASE_OUT9 = 209"
| "MotionType_value EASE_OUT10 = 210"
| "MotionType_value EASE_OUT12 = 212"
| "MotionType_value EASE_OUT14 = 214"
| "MotionType_value EASE_OUT16 = 216"
| "MotionType_value EASE_OUT18 = 218"
| "MotionType_value EASE_OUT20 = 220"
| "MotionType_value EASE_OUT25 = 225"
| "MotionType_value EASE_OUT30 = 230"
| "MotionType_value EASE_OUT35 = 235"
| "MotionType_value EASE_IN_OUT2 = 302"
| "MotionType_value EASE_IN_OUT3 = 303"
| "MotionType_value EASE_IN_OUT4 = 304"
| "MotionType_value EASE_IN_OUT5 = 305"
| "MotionType_value EASE_IN_OUT6 = 306"
| "MotionType_value EASE_IN_OUT7 = 307"
| "MotionType_value EASE_IN_OUT8 = 308"
| "MotionType_value EASE_IN_OUT9 = 309"
| "MotionType_value EASE_IN_OUT10 = 310"
| "MotionType_value EASE_IN_OUT12 = 312"
| "MotionType_value EASE_IN_OUT14 = 314"
| "MotionType_value EASE_IN_OUT16 = 316"
| "MotionType_value EASE_IN_OUT18 = 318"
| "MotionType_value EASE_IN_OUT20 = 320"
| "MotionType_value EASE_IN_OUT25 = 325"
| "MotionType_value EASE_IN_OUT30 = 330"
| "MotionType_value EASE_IN_OUT35 = 335"

definition STRING_TO_MOTION_TYPE :: "(string \<times> MotionType) list" where
  "STRING_TO_MOTION_TYPE =
    [(''linear'', LINEAR),
     (''ease_in'', EASE_IN),
     (''ease_out'', EASE_OUT),
     (''ease_in_out'', EASE_IN_OUT),
     (''ease_in2'', EASE_IN2),
     (''ease_in3'', EASE_IN3),
     (''ease_in4'', EASE_IN4),
     (''ease_in5'', EASE_IN5),
     (''ease_in6'', EASE_IN6),
     (''ease_in7'', EASE_IN7),
     (''ease_in8'', EASE_IN8),
     (''ease_in9'', EASE_IN9),
     (''ease_in10'', EASE_IN10),
     (''ease_in12'', EASE_IN12),
     (''ease_in14'', EASE_IN14),
     (''ease_in16'', EASE_IN16),
     (''ease_in18'', EASE_IN18),
     (''ease_in20'', EASE_IN20),
     (''ease_in25'', EASE_IN25),
     (''ease_in30'', EASE_IN30),
     (''ease_in35'', EASE_IN35),
     (''ease_out2'', EASE_OUT2),
     (''ease_out3'', EASE_OUT3),
     (''ease_out4'', EASE_OUT4),
     (''ease_out5'', EASE_OUT5),
     (''ease_out6'', EASE_OUT6),
     (''ease_out7'', EASE_OUT7),
     (''ease_out8'', EASE_OUT8),
     (''ease_out9'', EASE_OUT9),
     (''ease_out10'', EASE_OUT10),
     (''ease_out12'', EASE_OUT12),
     (''ease_out14'', EASE_OUT14),
     (''ease_out16'', EASE_OUT16),
     (''ease_out18'', EASE_OUT18),
     (''ease_out20'', EASE_OUT20),
     (''ease_out25'', EASE_OUT25),
     (''ease_out30'', EASE_OUT30),
     (''ease_out35'', EASE_OUT35),
     (''ease_in_out2'', EASE_IN_OUT2),
     (''ease_in_out3'', EASE_IN_OUT3),
     (''ease_in_out4'', EASE_IN_OUT4),
     (''ease_in_out5'', EASE_IN_OUT5),
     (''ease_in_out6'', EASE_IN_OUT6),
     (''ease_in_out7'', EASE_IN_OUT7),
     (''ease_in_out8'', EASE_IN_OUT8),
     (''ease_in_out9'', EASE_IN_OUT9),
     (''ease_in_out10'', EASE_IN_OUT10),
     (''ease_in_out12'', EASE_IN_OUT12),
     (''ease_in_out14'', EASE_IN_OUT14),
     (''ease_in_out16'', EASE_IN_OUT16),
     (''ease_in_out18'', EASE_IN_OUT18),
     (''ease_in_out20'', EASE_IN_OUT20),
     (''ease_in_out25'', EASE_IN_OUT25),
     (''ease_in_out30'', EASE_IN_OUT30),
     (''ease_in_out35'', EASE_IN_OUT35)]"

text \<open>
  \<^verbatim>\<open>if s in D: return D[s] else: raise ValueError(...)\<close>, for a dict written as a literal:
  the literal is kept as the list of its entries in source order, and the lookup is
  \<^const>\<open>map_of\<close> on it.
\<close>

definition MotionType_from_string :: "string \<Rightarrow> error + MotionType" where
  "MotionType_from_string s =
     (case map_of STRING_TO_MOTION_TYPE s of
        Some m \<Rightarrow> Inr m
      | None \<Rightarrow> Inl (ValueError (''Unknown motion type: '' @ s)))"

subsection \<open>BlendingMode\<close>

datatype BlendingMode =
    NORMAL | MULTIPLY | SCREEN | OVERLAY | DARKEN | LIGHTEN
  | COLOR_DODGE | COLOR_BURN | LINEAR_DODGE | LINEAR_BURN
  | HARD_LIGHT | SOFT_LIGHT | VIVID_LIGHT | LINEAR_LIGHT | PIN_LIGHT
  | DIFFERENCE | EXCLUSION | SUBTRACT

fun BlendingMode_value :: "BlendingMode \<Rightarrow> int" where
  "BlendingMode_value NORMAL = 0"
| "BlendingMode_value MULTIPLY = 1"
| "BlendingMode_value SCREEN = 2"
| "BlendingMode_value OVERLAY = 3"
| "BlendingMode_value DARKEN = 4"
| "BlendingMode_value LIGHTEN = 5"
| "BlendingMode_value COLOR_DODGE = 6"
| "BlendingMode_value COLOR_BURN = 7"
| "BlendingMode_value LINEAR_DODGE = 8"
| "BlendingMode_value LINEAR_BURN = 9"
| "BlendingMode_value HARD_LIGHT = 10"
| "BlendingMode_value SOFT_LIGHT = 11"
| "BlendingMode_value VIVID_LIGHT = 12"
| "BlendingMode_value LINEAR_LIGHT = 13"
| "BlendingMode_value PIN_LIGHT = 14"
| "BlendingMode_value DIFFERENCE = 15"
| "BlendingMode_value EXCLUSION = 16"
| "BlendingMode_value SUBTRACT = 17"

definition STRING_TO_BLENDING_MODE :: "(string \<times> BlendingMode) list" where
  "STRING_TO_BLENDING_MODE =
    [(''normal'', NORMAL),
     (''multiply'', MULTIPLY),
     (''screen'', SCREEN),
     (''overlay'', OVERLAY),
     (''darken'', DARKEN),
     (''lighten'', LIGHTEN),
     (''color_dodge'', COLOR_DODGE),
     (''color_burn'', COLOR_BURN),
     (''linear_dodge'', LINEAR_DODGE),
     (''linear_burn'', LINEAR_BURN),
     (''hard_light'', HARD_LIGHT),
     (''soft_light'', SOFT_LIGHT),
     (''vivid_light'', VIVID_LIGHT),
     (''linear_light'', LINEAR_LIGHT),
     (''pin_light'', PIN_LIGHT),
     (''difference'', DIFFERENCE),
     (''exclusion'', EXCLUSION),
     (''subtract'', SUBTRACT)]"

definition BlendingMode_from_string :: "string \<Rightarrow> error + BlendingMode" where
  "BlendingMode_from_string s =
     (case map_of STRING_TO_BLENDING_MODE s of
        Some m \<Rightarrow> Inr m
      | None \<Rightarrow> Inl (ValueError (''Unknown blending mode: '' @ s)))"

subsection \<open>MatteMode\<close>

datatype MatteMode = NONE | ALPHA | LUMINANCE

fun MatteMode_value :: "MatteMode \<Rightarrow> int" where
  "MatteMode_value NONE = 0"
| "MatteMode_value ALPHA = 1"
| "MatteMode_value LUMINANCE = 2"

definition STRING_TO_MATTE_MODE :: "(string \<times> MatteMode) list" where
  "STRING_TO_MATTE_MODE =
    [(''none'', NONE),
     (''alpha'', ALPHA),
     (''luminance'', LUMINANCE)]"

definition MatteMode_from_string :: "string \<Rightarrow> error + MatteMode" where
  "MatteMode_from_string s =
     (case map_of STRING_TO_MATTE_MODE s of
        Some m \<Rightarrow> Inr m
      | None \<Rightarrow> Inl (ValueError (''Unknown matte mode: '' @ s)))"

subsection \<open>Direction\<close>

datatype Direction =
    BOTTOM_LEFT | BOTTOM_CENTER | BOTTOM_RIGHT
  | CENTER_LEFT | CENTER | CENTER_RIGHT
  | TOP_LEFT | TOP_CENTER | TOP_RIGHT


section \<open>movis/subtitle.py\<close>

record ASSStyleType =
  name :: string
  font_name :: string
  font_size :: int
  primary_color :: string
  secondary_color :: string
  outline_color :: string
  back_color :: string
  bold :: bool
  italic :: bool
  underline :: bool
  strike_out :: bool
  scale_x :: int
  scale_y :: int
  spacing :: int
  angle :: int
  border_style :: int
  outline :: int
  shadow :: int
  alignment :: Direction
  margin_l :: int
  margin_r :: int
  margin_v :: int

text \<open>\<^verbatim>\<open>ASSStyleType()\<close>: every field at its declared default.\<close>

definition ASSStyleType_default :: ASSStyleType where
  "ASSStyleType_default =
     \<lparr>name = ''Default'', font_name = ''Helvetica'', font_size = 60,
      primary_color = ''&Hffffff'', secondary_color = ''&Hffffff'',
      outline_color = ''&H0'', back_color = ''&H0'',
      bold = False, italic = False, underline = False, strike_out = False,
      scale_x = 100, scale_y = 100, spacing = 0, angle = 0, border_style = 1,
      outline = 5, shadow = 0, alignment = BOTTOM_CENTER,
      margin_l = 10, margin_r = 10, margin_v = 30\<rparr>"

definition ass_format_str :: string where
  "ass_format_str =
     ''Format: Name, Fontname, Fontsize, PrimaryColour, SecondaryColour, '' @
     ''OutlineColour, BackColour, Bold, Italic, Underline, StrikeOut, '' @
     ''ScaleX, ScaleY, Spacing, Angle, BorderStyle, '' @
     ''Outline, Shadow, Alignment, MarginL, MarginR, MarginV, Encoding''"

definition make_ass_style_header :: string where
  "make_ass_style_header = join NL [''[V4+ Styles]'', ass_format_str]"

text \<open>The f-string of \<^verbatim>\<open>_make_ass_style\<close>, piece by piece.\<close>

definition make_ass_style :: "ASSStyleType \<Rightarrow> string" where
  "make_ass_style s =
     ''Style: '' @ name s @ '','' @ font_name s @ '','' @ str_int (font_size s) @ '','' @
     primary_color s @ '','' @ secondary_color s @ '','' @
     outline_color s @ '','' @ back_color s @ '','' @
     str_int (int_of_bool (bold s)) @ '','' @ str_int (int_of_bool (italic s)) @ '','' @
     str_int (int_of_bool (underline s)) @ '','' @ str_int (int_of_bool (strike_out s)) @ '','' @
     str_int (scale_x s) @ '','' @ str_int (scale_y s) @ '','' @ str_int (spacing s) @ '','' @
     str_int (angle s) @ '','' @ str_int (border_style s) @ '','' @
     str_int (outline s) @ '','' @ str_int (shadow s) @ '',2,'' @
     str_int (margin_l s) @ '','' @ str_int (margin_r s) @ '','' @ str_int (margin_v s) @ '',1''"

text \<open>\<^verbatim>\<open>get_time\<close>, local to \<^verbatim>\<open>write_ass_file\<close>.\<close>

definition get_time :: "'f float_ops \<Rightarrow> 'f \<Rightarrow> string" where
  "get_time F t =
     format_0d 2 (float_int F (float_div F t 3600)) @ '':'' @
     format_0d 2 (float_int F (float_mod F (float_div F t 60) 60)) @ '':'' @
     format_0d 2 (float_int F (float_mod F t 60)) @ ''.'' @
     format_0d 2 (float_int F (float_mul F (float_mod F t 1) 100))"

definition ass_header :: "int \<times> int \<Rightarrow> ASSStyleType list \<Rightarrow> string" where
  "ass_header sz styles =
     ''[Script Info]'' @ NL @
     ''; Script generated by FFmpeg/Lavc60.14.101'' @ NL @
     ''ScriptType: v4.00+'' @ NL @
     ''PlayResX: '' @ str_int (fst sz) @ NL @
     ''PlayResY: '' @ str_int (snd sz) @ NL @
     ''ScaledBorderAndShadow: yes'' @ NL @
     ''YCbCr Matrix: None'' @ NL @
     NL @
     make_ass_style_header @ NL @
     join NL (map make_ass_style styles) @ NL @
     NL @
     ''[Events]'' @ NL @
     ''Format: Layer, Start, End, Style, Name, MarginL, MarginR, MarginV, Effect, Text'' @ NL"

text \<open>\<^verbatim>\<open>line_template.format(...)\<close>.\<close>

definition ass_line :: "string \<Rightarrow> string \<Rightarrow> string \<Rightarrow> string \<Rightarrow> string" where
  "ass_line start_time end_time character text =
     ''Dialogue: 0,'' @ start_time @ '','' @ end_time @ '','' @ character @ '',,0,0,0,,'' @ text"

text \<open>
  The loop of \<^verbatim>\<open>write_ass_file\<close> over \<^verbatim>\<open>zip(start_times, end_times, characters, texts)\<close>,
  with the list \<^verbatim>\<open>lines\<close> it appends to.
\<close>

fun ass_lines_loop ::
  "'f float_ops \<Rightarrow> ('f \<times> 'f \<times> string \<times> string) list \<Rightarrow> string list \<Rightarrow> string list" where
  "ass_lines_loop F [] lines = lines"
| "ass_lines_loop F ((t0, t1, character, text) # rows) lines =
     ass_lines_loop F rows (lines @ [ass_line (get_time F t0) (get_time F t1) character text])"

text \<open>
  \<^verbatim>\<open>write_ass_file\<close> returns what it writes to \<^verbatim>\<open>dst_ass_file\<close>.  \<open>None\<close> for
  \<^verbatim>\<open>characters\<close> or \<^verbatim>\<open>styles\<close> is the omitted argument; \<open>sz\<close> is the parameter \<^verbatim>\<open>size\<close>.
\<close>

definition write_ass_file ::
  "'f float_ops \<Rightarrow> 'f list \<Rightarrow> 'f list \<Rightarrow> string list \<Rightarrow> int \<times> int \<Rightarrow>
   string list option \<Rightarrow> ASSStyleType list option \<Rightarrow> error + string" where
  "write_ass_file F start_times end_times texts sz characters styles =
     (if \<not> (length start_times = length end_times \<and> length end_times = length texts)
      then Inl AssertionError
      else
        let characters' = (case characters of
                             None \<Rightarrow> replicate (length texts) ''Default''
                           | Some cs \<Rightarrow> cs);
            styles' = (case styles of None \<Rightarrow> [ASSStyleType_default] | Some ss \<Rightarrow> ss);
            header = ass_header sz styles';
            lines = ass_lines_loop F (zip start_times (zip end_times (zip characters' texts))) [];
            body = join NL lines
        in Inr (header @ body))"

text \<open>The timestamp line of a cue of the SRT format.\<close>

definition srt_time_line :: "'f float_ops \<Rightarrow> 'f \<Rightarrow> 'f \<Rightarrow> string" where
  "srt_time_line F start_time end_time =
     format_0d 2 (float_int F (float_div F start_time 3600)) @ '':'' @
     format_0d 2 (float_int F (float_mod F (float_div F start_time 60) 60)) @ '':'' @
     format_0d 2 (float_int F (float_mod F start_time 60)) @ '','' @
     format_0d 3 (float_int F (float_mul F (float_mod F start_time 1) 1000)) @ '' --> '' @
     format_0d 2 (float_int F (float_div F end_time 3600)) @ '':'' @
     format_0d 2 (float_int F (float_mod F (float_div F end_time 60) 60)) @ '':'' @
     format_0d 2 (float_int F (float_mod F end_time 60)) @ '','' @
     format_0d 3 (float_int F (float_mul F (float_mod F end_time 1) 1000)) @ NL"

text \<open>
  The loop of \<^verbatim>\<open>write_srt_file\<close> over \<^verbatim>\<open>enumerate(zip(start_times, end_times, texts))\<close>:
  \<open>i\<close> is the counter of \<^verbatim>\<open>enumerate\<close>, \<open>out\<close> what has been written to the file.
\<close>

fun write_srt_loop ::
  "'f float_ops \<Rightarrow> nat \<Rightarrow> ('f \<times> 'f \<times> string) list \<Rightarrow> string \<Rightarrow> string" where
  "write_srt_loop F i [] out = out"
| "write_srt_loop F i ((start_time, end_time, text) # rows) out =
     (let out1 = out @ str_nat (i + 1) @ NL;
          out2 = out1 @ srt_time_line F start_time end_time;
          cleaned_text = replace NL [] (replace [CHR 0x5C, CHR ''n''] [] text)
      in write_srt_loop F (i + 1) rows (out2 @ cleaned_text @ NL @ NL))"

definition write_srt_file ::
  "'f float_ops \<Rightarrow> 'f list \<Rightarrow> 'f list \<Rightarrow> string list \<Rightarrow> error + string" where
  "write_srt_file F start_times end_times texts =
     (if \<not> (length start_times = length end_times \<and> length end_times = length texts)
      then Inl AssertionError
      else Inr (write_srt_loop F 0 (zip start_times (zip end_times texts)) []))"


text \<open>
  The two timestamp formats in the words of the specification, \<^verbatim>\<open>HH:MM:SS.cc\<close> and
  \<^verbatim>\<open>HH:MM:SS,mmm\<close>, from the integer fields: each field in decimal, filled with zeros in
  front up to two digits, the milliseconds up to three.
\<close>

definition hh_mm_ss_cc :: "int \<Rightarrow> int \<Rightarrow> int \<Rightarrow> int \<Rightarrow> string" where
  "hh_mm_ss_cc h m s c =
     zero_fill 2 (str_nat (nat h)) @ '':'' @ zero_fill 2 (str_nat (nat m)) @ '':'' @
     zero_fill 2 (str_nat (nat s)) @ ''.'' @ zero_fill 2 (str_nat (nat c))"

definition hh_mm_ss_mmm :: "int \<Rightarrow> int \<Rightarrow> int \<Rightarrow> int \<Rightarrow> string" where
  "hh_mm_ss_mmm h m s ms =
     zero_fill 2 (str_nat (nat h)) @ '':'' @ zero_fill 2 (str_nat (nat m)) @ '':'' @
     zero_fill 2 (str_nat (nat s)) @ '','' @ zero_fill 3 (str_nat (nat ms))"

section \<open>zunda/engine.py\<close>

text \<open>
  \<^verbatim>\<open>os.path.splitext(p)[0]\<close> for a file name without directory: the name up to its last
  dot, provided some character before that dot is not a dot; the whole name otherwise.
\<close>

definition splitext_root :: "string \<Rightarrow> string" where
  "splitext_root p =
     (let n = length (takeWhile (\<lambda>c. c \<noteq> CHR ''.'') (rev p))
      in if n = length p then p
         else let d = length p - n - 1
              in if list_ex (\<lambda>c. c \<noteq> CHR ''.'') (take d p) then take d p else p)"

text \<open>
  \<^verbatim>\<open>_insert_newlines\<close>.  The tokenizer is an external library: \<open>tagger_parse\<close> stands for
  \<^verbatim>\<open>MeCab.Tagger().parse\<close>.  The loop keeps the list \<^verbatim>\<open>lines\<close>, whose last element grows.
\<close>

definition first_piece :: "char \<Rightarrow> string \<Rightarrow> string" where
  "first_piece c p = (case split c p of [] \<Rightarrow> [] | x # _ \<Rightarrow> x)"

fun insert_newlines_loop :: "int \<Rightarrow> string list \<Rightarrow> string list \<Rightarrow> string list" where
  "insert_newlines_loop max_length [] lines = lines"
| "insert_newlines_loop max_length (w # ws) lines =
     (let lines1 = (if length lines = 0 \<or> max_length < int (len (last lines) + len w)
                    then lines @ [[]] else lines)
      in insert_newlines_loop max_length ws (butlast lines1 @ [last lines1 @ w]))"

definition insert_newlines :: "(string \<Rightarrow> string) \<Rightarrow> string \<Rightarrow> int \<Rightarrow> string" where
  "insert_newlines tagger_parse text max_length =
     (let parsed = split (CHR 0x0A) (tagger_parse text);
          words = map (first_piece (CHR 0x09)) (take (length parsed - 2) parsed)
      in join [CHR 0x5C, CHR ''n''] (insert_newlines_loop max_length words []))"

text \<open>
  A row of the timeline file, with the columns in the order of the dictionary that the
  loop of \<^verbatim>\<open>make_timeline_file\<close> builds.  The column \<^verbatim>\<open>text\<close> is the field \<open>row_text\<close>.
  The type of the times is a parameter: the loop only uses its \<open>0\<close> and its \<open>+\<close>.
\<close>

record 't timeline_row =
  start_time :: 't
  end_time :: 't
  character :: string
  hash :: string
  row_text :: string
  slide :: int
  status :: string

text \<open>
  The keys of \<^verbatim>\<open>character_dict\<close> are Japanese names, here in UTF-8: the first is the name
  mapped to \<^verbatim>\<open>metan\<close>, the second the name mapped to \<^verbatim>\<open>zunda\<close>.
\<close>

definition character_dict :: "(string \<times> string) list" where
  "character_dict =
     [([CHR 0xE5, CHR 0x9B, CHR 0x9B, CHR 0xE5, CHR 0x9B, CHR 0xBD, CHR 0xE3, CHR 0x82,
        CHR 0x81, CHR 0xE3, CHR 0x81, CHR 0x9F, CHR 0xE3, CHR 0x82, CHR 0x93, CHR 0xEF,
        CHR 0xBC, CHR 0x88, CHR 0xE3, CHR 0x83, CHR 0x8E, CHR 0xE3, CHR 0x83, CHR 0xBC,
        CHR 0xE3, CHR 0x83, CHR 0x9E, CHR 0xE3, CHR 0x83, CHR 0xAB, CHR 0xEF, CHR 0xBC,
        CHR 0x89], ''metan''),
      ([CHR 0xE3, CHR 0x81, CHR 0x9A, CHR 0xE3, CHR 0x82, CHR 0x93, CHR 0xE3, CHR 0x81,
        CHR 0xA0, CHR 0xE3, CHR 0x82, CHR 0x82, CHR 0xE3, CHR 0x82, CHR 0x93, CHR 0xEF,
        CHR 0xBC, CHR 0x88, CHR 0xE3, CHR 0x83, CHR 0x8E, CHR 0xE3, CHR 0x83, CHR 0xBC,
        CHR 0xE3, CHR 0x83, CHR 0x9E, CHR 0xE3, CHR 0x83, CHR 0xAB, CHR 0xEF, CHR 0xBC,
        CHR 0x89], ''zunda'')]"

text \<open>
  \<^verbatim>\<open>get_extra_columns\<close>, local to \<^verbatim>\<open>make_timeline_file\<close>: the columns text, slide and
  status of a row.  \<open>get_hash_prefix\<close> stands for \<^verbatim>\<open>_get_hash_prefix\<close> (the first six
  hexadecimal digits of a SHA-1 digest, from \<^verbatim>\<open>hashlib\<close>); \<open>prev_timeline\<close> is the timeline
  file found at the destination, if there is one.
\<close>

text \<open>
  In the source the fallback branches call \<^verbatim>\<open>transform_text(raw_text)\<close> on the variable of the
  enclosing loop, which holds the argument \<^verbatim>\<open>text\<close> of the only call.
\<close>

definition transform_text :: "(string \<Rightarrow> string) \<Rightarrow> int \<Rightarrow> string \<Rightarrow> string" where
  "transform_text tagger_parse max_length raw_text =
     (if 0 < max_length then insert_newlines tagger_parse raw_text max_length else raw_text)"

definition get_extra_columns ::
  "(string \<Rightarrow> string) \<Rightarrow> (string \<Rightarrow> string) \<Rightarrow> 't timeline_row list option \<Rightarrow> int \<Rightarrow>
   string \<Rightarrow> string \<times> int \<times> string" where
  "get_extra_columns get_hash_prefix tagger_parse prev_timeline max_length text =
     (case prev_timeline of
        None \<Rightarrow> (transform_text tagger_parse max_length text, 0, ''n'')
      | Some prev \<Rightarrow>
          (case filter (\<lambda>r. hash r = get_hash_prefix text) prev of
             [] \<Rightarrow> (transform_text tagger_parse max_length text, 0, ''n'')
           | row # _ \<Rightarrow> (row_text row, slide row, status row)))"

text \<open>
  The loop of \<^verbatim>\<open>make_timeline_file\<close> over \<^verbatim>\<open>zip(wav_files, txt_files)\<close>.  A wav file is
  given by its duration (what \<^verbatim>\<open>_get_audio_length\<close> reads from it), a txt file by its name
  in the audio directory and its content.  \<open>start\<close> is the variable \<^verbatim>\<open>start_time\<close>,
  \<open>frame\<close> the list of rows built so far.  \<^verbatim>\<open>filename.split('_')[1]\<close> raises IndexError
  when the name has no underscore, \<^verbatim>\<open>character_dict[character]\<close> raises KeyError for
  another name than the two of the dictionary.
\<close>

fun timeline_loop ::
  "(string \<Rightarrow> string) \<Rightarrow> (string \<Rightarrow> string) \<Rightarrow> 't timeline_row list option \<Rightarrow> int \<Rightarrow>
   ('t::{zero,plus} \<times> string \<times> string) list \<Rightarrow> 't \<Rightarrow> 't timeline_row list \<Rightarrow>
   error + 't timeline_row list" where
  "timeline_loop get_hash_prefix tagger_parse prev_timeline max_length [] start frame = Inr frame"
| "timeline_loop get_hash_prefix tagger_parse prev_timeline max_length
     ((duration, txt_file, raw_text) # rest) start frame =
     (let finish = start + duration;
          filename = splitext_root txt_file
      in case split (CHR ''_'') filename of
           _ # ch # _ \<Rightarrow>
             (case map_of character_dict ch of
                None \<Rightarrow> Inl (KeyError ch)
              | Some c \<Rightarrow>
                  (case get_extra_columns get_hash_prefix tagger_parse prev_timeline
                          max_length raw_text of
                     (tx, sl, st) \<Rightarrow>
                       timeline_loop get_hash_prefix tagger_parse prev_timeline max_length rest
                         finish
                         (frame @ [\<lparr>start_time = start, end_time = finish, character = c,
                                    hash = get_hash_prefix raw_text, row_text = tx,
                                    slide = sl, status = st\<rparr>])))
         | _ \<Rightarrow> Inl IndexError)"

text \<open>
  \<^verbatim>\<open>make_timeline_file\<close> returns the rows it writes to the timeline file.  \<open>wav_files\<close>
  and \<open>txt_files\<close> are the two sorted listings of the audio directory.
\<close>

definition make_timeline_file ::
  "(string \<Rightarrow> string) \<Rightarrow> (string \<Rightarrow> string) \<Rightarrow> 't timeline_row list option \<Rightarrow> int \<Rightarrow>
   ('t::{zero,plus}) list \<Rightarrow> (string \<times> string) list \<Rightarrow> error + 't timeline_row list" where
  "make_timeline_file get_hash_prefix tagger_parse prev_timeline max_length wav_files txt_files =
     timeline_loop get_hash_prefix tagger_parse prev_timeline max_length
       (zip wav_files txt_files) 0 []"

text \<open>
  The loop of \<^verbatim>\<open>make_srt_file\<close> over the rows of the timeline file, which pandas numbers
  from 0: \<open>i\<close> is the index of the row, \<open>out\<close> what has been written to the file.
\<close>

fun make_srt_loop ::
  "'f float_ops \<Rightarrow> nat \<Rightarrow> 'f timeline_row list \<Rightarrow> string \<Rightarrow> string" where
  "make_srt_loop F i [] out = out"
| "make_srt_loop F i (row # rows) out =
     (let start = start_time row;
          finish = end_time row;
          out1 = out @ str_nat (i + 1) @ NL;
          out2 = out1 @
            format_0d 2 (float_int F (float_div F start 3600)) @ '':'' @
            format_0d 2 (float_int F (float_mod F (float_div F start 60) 60)) @ '':'' @
            format_0d 2 (float_int F (float_mod F start 60)) @ '','' @
            format_0d 3 (float_int F (float_mul F (float_mod F start 1) 1000)) @ '' --> '' @
            format_0d 2 (float_int F (float_div F finish 3600)) @ '':'' @
            format_0d 2 (float_int F (float_mod F (float_div F finish 60) 60)) @ '':'' @
            format_0d 2 (float_int F (float_mod F finish 60)) @ '','' @
            format_0d 3 (float_int F (float_mul F (float_mod F finish 1) 1000)) @ NL
      in make_srt_loop F (i + 1) rows (out2 @ row_text row @ NL @ NL))"

definition make_srt_file :: "'f float_ops \<Rightarrow> 'f timeline_row list \<Rightarrow> string" where
  "make_srt_file F timeline = make_srt_loop F 0 timeline []"


section \<open>The frame cache of the compositor\<close>

text \<open>
  Modelled from the spec: the scene graph, the renderer and the FrameCache are not among the
  source files (only the enumeration \<^typ>\<open>CacheType\<close> of the two cache scopes is), so this
  section follows sections 3, 4.3, 4.4, 4.5 and 7 of the specification.

  A node is a tagged variant, a leaf layer or a composition of child layers in paint order,
  with a stable identity and a state \<open>'a\<close> of its own (attribute timelines, blend and matte
  mode, time bounds, content producer).  The collaborators are parameters:
  \<open>resolve a t\<close> is everything of the node's own state that affects its appearance at
  time \<open>t\<close>, \<open>visible v\<close> tells whether a node contributes at all, \<open>produce v t\<close> is the
  buffer of a leaf and \<open>composite v t bs\<close> blends the buffers of the visible children,
  back to front.
\<close>

type_synonym node_id = nat

datatype 'a node =
    Layer node_id 'a
  | Composition node_id 'a "'a node list"

text \<open>
  Modelled from the spec: the content fingerprint of a node at a time, its own attribute
  values at that time plus, for a composition, the fingerprints of its visible children.
\<close>

datatype 'v fingerprint =
    LayerPrint 'v
  | CompositionPrint 'v "'v fingerprint list"

fun own_state :: "'a node \<Rightarrow> 'a" where
  "own_state (Layer i a) = a"
| "own_state (Composition i a cs) = a"

fun fingerprint_of :: "('a \<Rightarrow> real \<Rightarrow> 'v) \<Rightarrow> ('v \<Rightarrow> bool) \<Rightarrow> 'a node \<Rightarrow> real \<Rightarrow> 'v fingerprint"
  and fingerprints_of :: "('a \<Rightarrow> real \<Rightarrow> 'v) \<Rightarrow> ('v \<Rightarrow> bool) \<Rightarrow> 'a node list \<Rightarrow> real \<Rightarrow> 'v fingerprint list"
where
  "fingerprint_of resolve visible (Layer i a) t = LayerPrint (resolve a t)"
| "fingerprint_of resolve visible (Composition i a cs) t =
     CompositionPrint (resolve a t) (fingerprints_of resolve visible cs t)"
| "fingerprints_of resolve visible [] t = []"
| "fingerprints_of resolve visible (n # ns) t =
     (if visible (resolve (own_state n) t)
      then fingerprint_of resolve visible n t # fingerprints_of resolve visible ns t
      else fingerprints_of resolve visible ns t)"

text \<open>
  Modelled from the spec: \<^verbatim>\<open>render(t)\<close> with the cache disabled.  A leaf delegates to its
  content producer; a composition renders its visible children and composites them.
\<close>

fun render ::
  "('a \<Rightarrow> real \<Rightarrow> 'v) \<Rightarrow> ('v \<Rightarrow> bool) \<Rightarrow> ('v \<Rightarrow> real \<Rightarrow> 'b) \<Rightarrow> ('v \<Rightarrow> real \<Rightarrow> 'b list \<Rightarrow> 'b) \<Rightarrow>
   'a node \<Rightarrow> real \<Rightarrow> 'b"
  and render_children ::
  "('a \<Rightarrow> real \<Rightarrow> 'v) \<Rightarrow> ('v \<Rightarrow> bool) \<Rightarrow> ('v \<Rightarrow> real \<Rightarrow> 'b) \<Rightarrow> ('v \<Rightarrow> real \<Rightarrow> 'b list \<Rightarrow> 'b) \<Rightarrow>
   'a node list \<Rightarrow> real \<Rightarrow> 'b list"
where
  "render resolve visible produce composite (Layer i a) t = produce (resolve a t) t"
| "render resolve visible produce composite (Composition i a cs) t =
     composite (resolve a t) t (render_children resolve visible produce composite cs t)"
| "render_children resolve visible produce composite [] t = []"
| "render_children resolve visible produce composite (n # ns) t =
     (if visible (resolve (own_state n) t)
      then render resolve visible produce composite n t #
           render_children resolve visible produce composite ns t
      else render_children resolve visible produce composite ns t)"

text \<open>
  Modelled from the spec: the FrameCache.  An entry is found under the node identity and the
  time, and holds the rendered buffer with the fingerprint used to produce it.
\<close>

type_synonym ('v, 'b) frame_cache = "node_id \<times> real \<Rightarrow> ('v fingerprint \<times> 'b) option"

definition cache_get :: "('v, 'b) frame_cache \<Rightarrow> node_id \<Rightarrow> real \<Rightarrow> ('v fingerprint \<times> 'b) option" where
  "cache_get c i t = c (i, t)"

definition cache_put ::
  "('v, 'b) frame_cache \<Rightarrow> node_id \<Rightarrow> real \<Rightarrow> 'v fingerprint \<Rightarrow> 'b \<Rightarrow> ('v, 'b) frame_cache" where
  "cache_put c i t f b = c((i, t) \<mapsto> (f, b))"

definition cache_invalidate :: "('v, 'b) frame_cache \<Rightarrow> node_id \<Rightarrow> ('v, 'b) frame_cache" where
  "cache_invalidate c i = (\<lambda>(j, t). if j = i then None else c (j, t))"

text \<open>
  Modelled from the spec: \<^verbatim>\<open>render(t)\<close> with the cache.  \<open>enabled\<close> tells for each cache
  scope whether nodes of that scope are cached (leaf layers at LAYER scope, compositions at
  COMPOSITION scope); the cache is disabled when it is false for both.  A node whose
  fingerprint matches its entry is not rendered again: the buffer of the entry is reused,
  for a composition without visiting the children.  On a miss or a mismatch the node is
  rendered and the entry is written.  The compositor is the only writer of the cache, whose
  state is threaded through the walk.
\<close>

fun render_cached ::
  "('a \<Rightarrow> real \<Rightarrow> 'v) \<Rightarrow> ('v \<Rightarrow> bool) \<Rightarrow> ('v \<Rightarrow> real \<Rightarrow> 'b) \<Rightarrow> ('v \<Rightarrow> real \<Rightarrow> 'b list \<Rightarrow> 'b) \<Rightarrow>
   (CacheType \<Rightarrow> bool) \<Rightarrow> ('v, 'b) frame_cache \<Rightarrow> 'a node \<Rightarrow> real \<Rightarrow> 'b \<times> ('v, 'b) frame_cache"
  and render_children_cached ::
  "('a \<Rightarrow> real \<Rightarrow> 'v) \<Rightarrow> ('v \<Rightarrow> bool) \<Rightarrow> ('v \<Rightarrow> real \<Rightarrow> 'b) \<Rightarrow> ('v \<Rightarrow> real \<Rightarrow> 'b list \<Rightarrow> 'b) \<Rightarrow>
   (CacheType \<Rightarrow> bool) \<Rightarrow> ('v, 'b) frame_cache \<Rightarrow> 'a node list \<Rightarrow> real \<Rightarrow>
   'b list \<times> ('v, 'b) frame_cache"
where
  "render_cached resolve visible produce composite enabled c (Layer i a) t =
     (let f = fingerprint_of resolve visible (Layer i a) t;
          hit = (if enabled LAYER then cache_get c i t else None)
      in case hit of
           Some (f', b) \<Rightarrow>
             if f' = f then (b, c)
             else (let b' = produce (resolve a t) t in (b', cache_put c i t f b'))
         | None \<Rightarrow>
             (let b' = produce (resolve a t) t
              in (b', if enabled LAYER then cache_put c i t f b' else c)))"
| "render_cached resolve visible produce composite enabled c (Composition i a cs) t =
     (let f = fingerprint_of resolve visible (Composition i a cs) t;
          hit = (if enabled COMPOSITION then cache_get c i t else None)
      in case hit of
           Some (f', b) \<Rightarrow>
             if f' = f then (b, c)
             else (case render_children_cached resolve visible produce composite enabled c cs t of
                     (bs, c') \<Rightarrow>
                       (let b' = composite (resolve a t) t bs in (b', cache_put c' i t f b')))
         | None \<Rightarrow>
             (case render_children_cached resolve visible produce composite enabled c cs t of
                (bs, c') \<Rightarrow>
                  (let b' = composite (resolve a t) t bs
                   in (b', if enabled COMPOSITION then cache_put c' i t f b' else c'))))"
| "render_children_cached resolve visible produce composite enabled c [] t = ([], c)"
| "render_children_cached resolve visible produce composite enabled c (n # ns) t =
     (if visible (resolve (own_state n) t)
      then (case render_cached resolve visible produce composite enabled c n t of
              (b, c1) \<Rightarrow>
                (case render_children_cached resolve visible produce composite enabled c1 ns t of
                   (bs, c2) \<Rightarrow> (b # bs, c2)))
      else render_children_cached resolve visible produce composite enabled c ns t)"

text \<open>
  Modelled from the spec: a render session.  Between two renders the caller may edit the
  scene graph in any way (the next request simply carries another graph, with the same
  node identities or not) and entries of a node may be dropped by \<^verbatim>\<open>invalidate\<close>.
  \<open>session\<close> is the state of the cache after a sequence of such requests.
\<close>

datatype 'a request =
    Render "'a node" real
  | Invalidate node_id

fun session ::
  "('a \<Rightarrow> real \<Rightarrow> 'v) \<Rightarrow> ('v \<Rightarrow> bool) \<Rightarrow> ('v \<Rightarrow> real \<Rightarrow> 'b) \<Rightarrow> ('v \<Rightarrow> real \<Rightarrow> 'b list \<Rightarrow> 'b) \<Rightarrow>
   (CacheType \<Rightarrow> bool) \<Rightarrow> ('v, 'b) frame_cache \<Rightarrow> 'a request list \<Rightarrow> ('v, 'b) frame_cache" where
  "session resolve visible produce composite enabled c [] = c"
| "session resolve visible produce composite enabled c (Render n t # rs) =
     session resolve visible produce composite enabled
       (snd (render_cached resolve visible produce composite enabled c n t)) rs"
| "session resolve visible produce composite enabled c (Invalidate i # rs) =
     session resolve visible produce composite enabled (cache_invalidate c i) rs"

text \<open>
  The buffer that a fingerprint stands for: what the renderer draws from the values
  recorded in it.
\<close>

fun paint ::
  "('v \<Rightarrow> real \<Rightarrow> 'b) \<Rightarrow> ('v \<Rightarrow> real \<Rightarrow> 'b list \<Rightarrow> 'b) \<Rightarrow> 'v fingerprint \<Rightarrow> real \<Rightarrow> 'b" where
  "paint produce composite (LayerPrint v) t = produce v t"
| "paint produce composite (CompositionPrint v fs) t =
     composite v t (map (\<lambda>f. paint produce composite f t) fs)"

definition cache_ok ::
  "('v \<Rightarrow> real \<Rightarrow> 'b) \<Rightarrow> ('v \<Rightarrow> real \<Rightarrow> 'b list \<Rightarrow> 'b) \<Rightarrow> ('v, 'b) frame_cache \<Rightarrow> bool" where
  "cache_ok produce composite c =
     (\<forall>i t f b. c (i, t) = Some (f, b) \<longrightarrow> b = paint produce composite f t)"


section \<open>Properties of the enumerations\<close>

subsection \<open>Evaluation of decimal numerals\<close>

lemmas str_nat_eval =
  str_nat.simps [of "numeral k" for k] str_nat.simps [of 0] str_nat.simps [of 1]
  str_nat.simps [of "Suc 0"] digit_char_def

subsection \<open>Lookup in a table with distinct keys\<close>

lemma map_of_absent: "s \<notin> fst ` set tab \<Longrightarrow> map_of tab s = None"
  by (simp add: map_of_eq_None_iff)

lemma map_of_present: "distinct (map fst tab) \<Longrightarrow> (s, m) \<in> set tab \<Longrightarrow> map_of tab s = Some m"
  by (rule map_of_is_SomeI)

lemma map_of_found: "map_of tab s = Some m \<Longrightarrow> (s, m) \<in> set tab"
  by (rule map_of_SomeD)

subsection \<open>MotionType\<close>

lemma MotionType_keys_distinct: "distinct (map fst STRING_TO_MOTION_TYPE)"
  by (simp add: STRING_TO_MOTION_TYPE_def)

lemma MotionType_value_range:
  "MotionType_value m \<in> set [0, 1, 2, 3,
       102, 103, 104, 105, 106, 107, 108, 109, 110, 112, 114, 116, 118, 120, 125, 130, 135,
       202, 203, 204, 205, 206, 207, 208, 209, 210, 212, 214, 216, 218, 220, 225, 230, 235,
       302, 303, 304, 305, 306, 307, 308, 309, 310, 312, 314, 316, 318, 320, 325, 330, 335]"
  by (cases m) simp_all

lemma power_split:
  "2 \<le> p \<Longrightarrow> p \<le> 35 \<Longrightarrow>
   p \<in> set [2, 3, 4, 5, 6, 7, 8, 9, 10, 12, 14, 16, 18, 20, 25, 30, 35 :: nat] \<or>
   p \<in> set [11, 13, 15, 17, 19, 21, 22, 23, 24, 26, 27, 28, 29, 31, 32, 33, 34 :: nat]"
  by (simp; arith)

lemma present_powers_eval:
  "list_all
     (\<lambda>p. map_option MotionType_value (map_of STRING_TO_MOTION_TYPE (''ease_in'' @ str_nat p)) =
            Some (100 + int p) \<and>
          map_option MotionType_value (map_of STRING_TO_MOTION_TYPE (''ease_out'' @ str_nat p)) =
            Some (200 + int p) \<and>
          map_option MotionType_value (map_of STRING_TO_MOTION_TYPE (''ease_in_out'' @ str_nat p)) =
            Some (300 + int p))
     [2, 3, 4, 5, 6, 7, 8, 9, 10, 12, 14, 16, 18, 20, 25, 30, 35 :: nat]"
  by code_simp

lemma absent_powers_eval:
  "list_all
     (\<lambda>p. map_of STRING_TO_MOTION_TYPE (''ease_in'' @ str_nat p) = None \<and>
          map_of STRING_TO_MOTION_TYPE (''ease_out'' @ str_nat p) = None \<and>
          map_of STRING_TO_MOTION_TYPE (''ease_in_out'' @ str_nat p) = None)
     [11, 13, 15, 17, 19, 21, 22, 23, 24, 26, 27, 28, 29, 31, 32, 33, 34 :: nat]"
  by code_simp

lemma from_string_of_value:
  "map_option MotionType_value (map_of STRING_TO_MOTION_TYPE s) = Some v \<Longrightarrow>
   \<exists>m. MotionType_value m = v \<and> MotionType_from_string s = Inr m"
  by (cases "map_of STRING_TO_MOTION_TYPE s") (simp_all add: MotionType_from_string_def)

lemma absent_values_eval:
  "list_all (\<lambda>p. list_all (\<lambda>v. v \<noteq> 100 + int p \<and> v \<noteq> 200 + int p \<and> v \<noteq> 300 + int p)
      [0, 1, 2, 3,
       102, 103, 104, 105, 106, 107, 108, 109, 110, 112, 114, 116, 118, 120, 125, 130, 135,
       202, 203, 204, 205, 206, 207, 208, 209, 210, 212, 214, 216, 218, 220, 225, 230, 235,
       302, 303, 304, 305, 306, 307, 308, 309, 310, 312, 314, 316, 318, 320, 325, 330, 335])
     [11, 13, 15, 17, 19, 21, 22, 23, 24, 26, 27, 28, 29, 31, 32, 33, 34 :: nat]"
  by code_simp

lemma no_member_of_absent_power:
  assumes "p \<in> set [11, 13, 15, 17, 19, 21, 22, 23, 24, 26, 27, 28, 29, 31, 32, 33, 34 :: nat]"
  shows "MotionType_value m \<noteq> 100 + int p" and "MotionType_value m \<noteq> 200 + int p"
    and "MotionType_value m \<noteq> 300 + int p"
  using assms MotionType_value_range [of m] absent_values_eval
  unfolding list_all_iff by blast+

text \<open>
  C2.  \<^verbatim>\<open>MotionType.from_string\<close> raises for every string that is not a key of the curve
  table, and returns the member the table gives for every string that is a key.  The
  exception is Python's \<^verbatim>\<open>ValueError\<close>, with the message \<^verbatim>\<open>Unknown motion type: s\<close>.
\<close>

theorem MotionType_from_string_table:
  "(s \<notin> fst ` set STRING_TO_MOTION_TYPE \<longrightarrow>
      MotionType_from_string s = Inl (ValueError (''Unknown motion type: '' @ s))) \<and>
   (\<forall>m. (s, m) \<in> set STRING_TO_MOTION_TYPE \<longrightarrow> MotionType_from_string s = Inr m)"
  by (auto simp: MotionType_from_string_def map_of_absent
        map_of_present [OF MotionType_keys_distinct])

theorem MotionType_from_string_table_witness:
  "''bounce'' \<notin> fst ` set STRING_TO_MOTION_TYPE \<and>
   MotionType_from_string ''bounce'' = Inl (ValueError ''Unknown motion type: bounce'') \<and>
   (''ease_out5'', EASE_OUT5) \<in> set STRING_TO_MOTION_TYPE \<and>
   MotionType_from_string ''ease_out5'' = Inr EASE_OUT5"
proof -
  have a: "''bounce'' \<notin> fst ` set STRING_TO_MOTION_TYPE"
    by (simp add: STRING_TO_MOTION_TYPE_def)
  have b: "(''ease_out5'', EASE_OUT5) \<in> set STRING_TO_MOTION_TYPE"
    by (simp add: STRING_TO_MOTION_TYPE_def)
  from a b MotionType_from_string_table [of "''bounce''"]
    MotionType_from_string_table [of "''ease_out5''"]
  show ?thesis by simp
qed

text \<open>
  C1, as stated, fails at the power 11: \<^verbatim>\<open>ease_in11\<close> is not an identifier of the table.
\<close>

theorem MotionType_power_11_counterexample:
  "(2::nat) \<le> 11 \<and> (11::nat) \<le> 35 \<and>
   MotionType_from_string (''ease_in'' @ str_nat 11) =
     Inl (ValueError ''Unknown motion type: ease_in11'')"
  by (simp add: str_nat_eval MotionType_from_string_def STRING_TO_MOTION_TYPE_def)

text \<open>
  C1, amended.  Among the powers from 2 to 35, the three easing families are available at
  exactly the powers 2 to 10, 12, 14, 16, 18, 20, 25, 30 and 35: at each of them
  \<^verbatim>\<open>MotionType\<close> has the members of value \<open>100 + p\<close> (ease-in), \<open>200 + p\<close> (ease-out) and
  \<open>300 + p\<close> (ease-in-out), and \<^verbatim>\<open>from_string\<close> maps the identifiers \<^verbatim>\<open>ease_in<p>\<close>,
  \<^verbatim>\<open>ease_out<p>\<close> and \<^verbatim>\<open>ease_in_out<p>\<close> to them.  At every other power of the range there is
  no such member and \<^verbatim>\<open>from_string\<close> raises on the three identifiers.
\<close>

theorem MotionType_powers:
  assumes "2 \<le> p" and "p \<le> 35"
  shows "if p \<in> {2, 3, 4, 5, 6, 7, 8, 9, 10, 12, 14, 16, 18, 20, 25, 30, 35}
         then (\<exists>m. MotionType_value m = 100 + int p \<and>
                    MotionType_from_string (''ease_in'' @ str_nat p) = Inr m) \<and>
              (\<exists>m. MotionType_value m = 200 + int p \<and>
                    MotionType_from_string (''ease_out'' @ str_nat p) = Inr m) \<and>
              (\<exists>m. MotionType_value m = 300 + int p \<and>
                    MotionType_from_string (''ease_in_out'' @ str_nat p) = Inr m)
         else (\<nexists>m. MotionType_value m = 100 + int p) \<and>
              (\<nexists>m. MotionType_value m = 200 + int p) \<and>
              (\<nexists>m. MotionType_value m = 300 + int p) \<and>
              MotionType_from_string (''ease_in'' @ str_nat p) =
                Inl (ValueError (''Unknown motion type: ease_in'' @ str_nat p)) \<and>
              MotionType_from_string (''ease_out'' @ str_nat p) =
                Inl (ValueError (''Unknown motion type: ease_out'' @ str_nat p)) \<and>
              MotionType_from_string (''ease_in_out'' @ str_nat p) =
                Inl (ValueError (''Unknown motion type: ease_in_out'' @ str_nat p))"
proof -
  from power_split [OF assms] show ?thesis
  proof
    assume av: "p \<in> set [2, 3, 4, 5, 6, 7, 8, 9, 10, 12, 14, 16, 18, 20, 25, 30, 35 :: nat]"
    then have c: "p \<in> {2, 3, 4, 5, 6, 7, 8, 9, 10, 12, 14, 16, 18, 20, 25, 30, 35}"
      by simp
    from av present_powers_eval
    have "map_option MotionType_value (map_of STRING_TO_MOTION_TYPE (''ease_in'' @ str_nat p)) =
            Some (100 + int p) \<and>
          map_option MotionType_value (map_of STRING_TO_MOTION_TYPE (''ease_out'' @ str_nat p)) =
            Some (200 + int p) \<and>
          map_option MotionType_value (map_of STRING_TO_MOTION_TYPE (''ease_in_out'' @ str_nat p)) =
            Some (300 + int p)"
      unfolding list_all_iff by blast
    then show ?thesis unfolding if_P [OF c]
      by (intro conjI from_string_of_value) simp_all
  next
    assume ab: "p \<in> set [11, 13, 15, 17, 19, 21, 22, 23, 24, 26, 27, 28, 29, 31, 32, 33, 34 :: nat]"
    then have nc: "p \<notin> {2, 3, 4, 5, 6, 7, 8, 9, 10, 12, 14, 16, 18, 20, 25, 30, 35}"
      by auto
    from ab absent_powers_eval
    have n: "map_of STRING_TO_MOTION_TYPE (''ease_in'' @ str_nat p) = None"
      "map_of STRING_TO_MOTION_TYPE (''ease_out'' @ str_nat p) = None"
      "map_of STRING_TO_MOTION_TYPE (''ease_in_out'' @ str_nat p) = None"
      unfolding list_all_iff by blast+
    have 4: "\<nexists>m. MotionType_value m = 100 + int p" "\<nexists>m. MotionType_value m = 200 + int p"
      "\<nexists>m. MotionType_value m = 300 + int p"
      using no_member_of_absent_power [OF ab] by blast+
    show ?thesis unfolding if_not_P [OF nc] using n 4
      by (simp add: MotionType_from_string_def)
  qed
qed

theorem MotionType_powers_witness:
  "(2::nat) \<le> 12 \<and> (12::nat) \<le> 35 \<and>
   MotionType_from_string ''ease_in12'' = Inr EASE_IN12 \<and>
   MotionType_from_string ''ease_out12'' = Inr EASE_OUT12 \<and>
   MotionType_from_string ''ease_in_out12'' = Inr EASE_IN_OUT12 \<and>
   (2::nat) \<le> 13 \<and> (13::nat) \<le> 35 \<and>
   MotionType_from_string ''ease_in13'' = Inl (ValueError ''Unknown motion type: ease_in13'')"
  using MotionType_powers [of 12] MotionType_powers [of 13]
  by (simp add: str_nat_eval MotionType_from_string_def STRING_TO_MOTION_TYPE_def)

subsection \<open>AttributeType\<close>

text \<open>
  C3.  \<^verbatim>\<open>AttributeType\<close> has the five members, and \<^verbatim>\<open>from_string\<close> maps \<^verbatim>\<open>scalar\<close>,
  \<^verbatim>\<open>vector2d\<close>, \<^verbatim>\<open>vector3d\<close> and \<^verbatim>\<open>angle\<close> to theirs; but the chain of comparisons has no
  branch for \<^verbatim>\<open>color\<close>, which raises like any unknown string although \<^verbatim>\<open>COLOR\<close> is a
  member.
\<close>

theorem AttributeType_from_string_color:
  "AttributeType_from_string ''scalar'' = Inr SCALAR \<and>
   AttributeType_from_string ''vector2d'' = Inr VECTOR2D \<and>
   AttributeType_from_string ''vector3d'' = Inr VECTOR3D \<and>
   AttributeType_from_string ''angle'' = Inr ANGLE \<and>
   AttributeType_from_string ''color'' = Inl (ValueError ''Unknown attribute type: color'') \<and>
   AttributeType_from_string s \<noteq> Inr COLOR"
  by (simp add: AttributeType_from_string_def)

subsection \<open>BlendingMode\<close>

lemma BlendingMode_keys_distinct: "distinct (map fst STRING_TO_BLENDING_MODE)"
  by (simp add: STRING_TO_BLENDING_MODE_def)

lemma BlendingMode_members_distinct: "distinct (map snd STRING_TO_BLENDING_MODE)"
  by (simp add: STRING_TO_BLENDING_MODE_def)

lemma BlendingMode_members_all: "set (map snd STRING_TO_BLENDING_MODE) = UNIV"
proof -
  have "m \<in> set (map snd STRING_TO_BLENDING_MODE)" for m
    by (cases m) (simp_all add: STRING_TO_BLENDING_MODE_def)
  then show ?thesis by blast
qed

lemma BlendingMode_from_string_iff:
  "BlendingMode_from_string s = Inr m \<longleftrightarrow> (s, m) \<in> set STRING_TO_BLENDING_MODE"
proof
  assume "BlendingMode_from_string s = Inr m"
  then have "map_of STRING_TO_BLENDING_MODE s = Some m"
    by (simp add: BlendingMode_from_string_def split: option.splits)
  then show "(s, m) \<in> set STRING_TO_BLENDING_MODE" by (rule map_of_found)
next
  assume "(s, m) \<in> set STRING_TO_BLENDING_MODE"
  with BlendingMode_keys_distinct have "map_of STRING_TO_BLENDING_MODE s = Some m"
    by (rule map_of_present)
  then show "BlendingMode_from_string s = Inr m"
    by (simp add: BlendingMode_from_string_def)
qed

text \<open>
  C4.  \<^verbatim>\<open>BlendingMode\<close> has exactly eighteen members.  The table of
  \<^verbatim>\<open>BlendingMode.from_string\<close> has the eighteen names of the specification, in snake case
  and in its order, each once, and pairs each name with the member of that name:
  \<^verbatim>\<open>from_string\<close> maps \<^verbatim>\<open>normal\<close> to \<^verbatim>\<open>NORMAL\<close>, \<^verbatim>\<open>multiply\<close> to \<^verbatim>\<open>MULTIPLY\<close>, and so on for the
  eighteen names.  It returns \<open>m\<close> on \<open>s\<close> exactly when the table pairs \<open>s\<close> with \<open>m\<close>, it is a
  bijection from the eighteen names to the members, and it raises on every other string.
\<close>

theorem BlendingMode_from_string_bijection:
  "card (UNIV :: BlendingMode set) = 18 \<and>
   map fst STRING_TO_BLENDING_MODE =
     [''normal'', ''multiply'', ''screen'', ''overlay'', ''darken'', ''lighten'',
      ''color_dodge'', ''color_burn'', ''linear_dodge'', ''linear_burn'', ''hard_light'',
      ''soft_light'', ''vivid_light'', ''linear_light'', ''pin_light'', ''difference'',
      ''exclusion'', ''subtract''] \<and>
   distinct (map fst STRING_TO_BLENDING_MODE) \<and>
   (\<forall>s m. BlendingMode_from_string s = Inr m \<longleftrightarrow> (s, m) \<in> set STRING_TO_BLENDING_MODE) \<and>
   bij_betw (\<lambda>s. projr (BlendingMode_from_string s))
     (set (map fst STRING_TO_BLENDING_MODE)) UNIV \<and>
   (\<forall>s. s \<notin> set (map fst STRING_TO_BLENDING_MODE) \<longrightarrow>
      BlendingMode_from_string s = Inl (ValueError (''Unknown blending mode: '' @ s))) \<and>
   map snd STRING_TO_BLENDING_MODE =
     [NORMAL, MULTIPLY, SCREEN, OVERLAY, DARKEN, LIGHTEN, COLOR_DODGE, COLOR_BURN,
      LINEAR_DODGE, LINEAR_BURN, HARD_LIGHT, SOFT_LIGHT, VIVID_LIGHT, LINEAR_LIGHT,
      PIN_LIGHT, DIFFERENCE, EXCLUSION, SUBTRACT] \<and>
   BlendingMode_from_string ''normal'' = Inr NORMAL \<and>
   BlendingMode_from_string ''multiply'' = Inr MULTIPLY \<and>
   BlendingMode_from_string ''screen'' = Inr SCREEN \<and>
   BlendingMode_from_string ''overlay'' = Inr OVERLAY \<and>
   BlendingMode_from_string ''darken'' = Inr DARKEN \<and>
   BlendingMode_from_string ''lighten'' = Inr LIGHTEN \<and>
   BlendingMode_from_string ''color_dodge'' = Inr COLOR_DODGE \<and>
   BlendingMode_from_string ''color_burn'' = Inr COLOR_BURN \<and>
   BlendingMode_from_string ''linear_dodge'' = Inr LINEAR_DODGE \<and>
   BlendingMode_from_string ''linear_burn'' = Inr LINEAR_BURN \<and>
   BlendingMode_from_string ''hard_light'' = Inr HARD_LIGHT \<and>
   BlendingMode_from_string ''soft_light'' = Inr SOFT_LIGHT \<and>
   BlendingMode_from_string ''vivid_light'' = Inr VIVID_LIGHT \<and>
   BlendingMode_from_string ''linear_light'' = Inr LINEAR_LIGHT \<and>
   BlendingMode_from_string ''pin_light'' = Inr PIN_LIGHT \<and>
   BlendingMode_from_string ''difference'' = Inr DIFFERENCE \<and>
   BlendingMode_from_string ''exclusion'' = Inr EXCLUSION \<and>
   BlendingMode_from_string ''subtract'' = Inr SUBTRACT"
proof (intro conjI allI impI)
  have "card (set (map snd STRING_TO_BLENDING_MODE)) = length (map snd STRING_TO_BLENDING_MODE)"
    using BlendingMode_members_distinct by (rule distinct_card)
  then show "card (UNIV :: BlendingMode set) = 18"
    unfolding BlendingMode_members_all by (simp add: STRING_TO_BLENDING_MODE_def)
next
  show "map fst STRING_TO_BLENDING_MODE =
     [''normal'', ''multiply'', ''screen'', ''overlay'', ''darken'', ''lighten'',
      ''color_dodge'', ''color_burn'', ''linear_dodge'', ''linear_burn'', ''hard_light'',
      ''soft_light'', ''vivid_light'', ''linear_light'', ''pin_light'', ''difference'',
      ''exclusion'', ''subtract'']"
    by (simp add: STRING_TO_BLENDING_MODE_def)
next
  show "distinct (map fst STRING_TO_BLENDING_MODE)" by (rule BlendingMode_keys_distinct)
next
  fix s m
  show "BlendingMode_from_string s = Inr m \<longleftrightarrow> (s, m) \<in> set STRING_TO_BLENDING_MODE"
    by (rule BlendingMode_from_string_iff)
next
  show "bij_betw (\<lambda>s. projr (BlendingMode_from_string s))
     (set (map fst STRING_TO_BLENDING_MODE)) UNIV"
    unfolding bij_betw_def
  proof
    show "inj_on (\<lambda>s. projr (BlendingMode_from_string s)) (set (map fst STRING_TO_BLENDING_MODE))"
    proof (rule inj_onI)
      fix s s'
      assume s: "s \<in> set (map fst STRING_TO_BLENDING_MODE)"
        and s': "s' \<in> set (map fst STRING_TO_BLENDING_MODE)"
        and eq: "projr (BlendingMode_from_string s) = projr (BlendingMode_from_string s')"
      from s obtain m where m: "(s, m) \<in> set STRING_TO_BLENDING_MODE" by auto
      from s' obtain m' where m': "(s', m') \<in> set STRING_TO_BLENDING_MODE" by auto
      from m m' eq have "m = m'" by (simp add: BlendingMode_from_string_iff [symmetric])
      with m m' BlendingMode_members_distinct show "s = s'"
        by (metis distinct_map inj_onD snd_conv fst_conv)
    qed
  next
    show "(\<lambda>s. projr (BlendingMode_from_string s)) ` set (map fst STRING_TO_BLENDING_MODE) = UNIV"
    proof -
      have "m \<in> (\<lambda>s. projr (BlendingMode_from_string s)) ` set (map fst STRING_TO_BLENDING_MODE)" for m
      proof -
        from BlendingMode_members_all have "m \<in> set (map snd STRING_TO_BLENDING_MODE)" by simp
        then obtain s where sm: "(s, m) \<in> set STRING_TO_BLENDING_MODE" by auto
        then have "BlendingMode_from_string s = Inr m" by (simp add: BlendingMode_from_string_iff)
        then have "projr (BlendingMode_from_string s) = m" by simp
        moreover from sm have "s \<in> set (map fst STRING_TO_BLENDING_MODE)" by force
        ultimately show ?thesis by blast
      qed
      then show ?thesis by blast
    qed
  qed
next
  fix s assume "s \<notin> set (map fst STRING_TO_BLENDING_MODE)"
  then have "map_of STRING_TO_BLENDING_MODE s = None" by (simp add: map_of_absent)
  then show "BlendingMode_from_string s = Inl (ValueError (''Unknown blending mode: '' @ s))"
    by (simp add: BlendingMode_from_string_def)
qed (simp_all add: BlendingMode_from_string_def STRING_TO_BLENDING_MODE_def)

theorem BlendingMode_from_string_bijection_witness:
  "(''color_dodge'', COLOR_DODGE) \<in> set STRING_TO_BLENDING_MODE \<and>
   BlendingMode_from_string ''color_dodge'' = Inr COLOR_DODGE \<and>
   ''color-dodge'' \<notin> set (map fst STRING_TO_BLENDING_MODE) \<and>
   BlendingMode_from_string ''color-dodge'' = Inl (ValueError ''Unknown blending mode: color-dodge'')"
proof -
  have a: "(''color_dodge'', COLOR_DODGE) \<in> set STRING_TO_BLENDING_MODE"
    by (simp add: STRING_TO_BLENDING_MODE_def)
  have b: "''color-dodge'' \<notin> set (map fst STRING_TO_BLENDING_MODE)"
    by (simp add: STRING_TO_BLENDING_MODE_def)
  note t = BlendingMode_from_string_bijection
  note i = t [THEN conjunct2, THEN conjunct2, THEN conjunct2, THEN conjunct1, rule_format]
  note r = t [THEN conjunct2, THEN conjunct2, THEN conjunct2, THEN conjunct2, THEN conjunct2,
    THEN conjunct1, rule_format]
  from a have c: "BlendingMode_from_string ''color_dodge'' = Inr COLOR_DODGE"
    by (simp only: i)
  from r [OF b] have d: "BlendingMode_from_string ''color-dodge'' =
      Inl (ValueError ''Unknown blending mode: color-dodge'')"
    by simp
  from a b c d show ?thesis by (intro conjI)
qed

subsection \<open>MatteMode\<close>

lemma MatteMode_keys_distinct: "distinct (map fst STRING_TO_MATTE_MODE)"
  by (simp add: STRING_TO_MATTE_MODE_def)

text \<open>
  C7.  \<^verbatim>\<open>MatteMode\<close> has exactly the three members \<^verbatim>\<open>NONE\<close>, \<^verbatim>\<open>ALPHA\<close> and \<^verbatim>\<open>LUMINANCE\<close>;
  \<^verbatim>\<open>MatteMode.from_string\<close> maps \<^verbatim>\<open>none\<close>, \<^verbatim>\<open>alpha\<close> and \<^verbatim>\<open>luminance\<close> to them and raises on
  every other string.
\<close>

theorem MatteMode_from_string_three:
  "(UNIV :: MatteMode set) = {NONE, ALPHA, LUMINANCE} \<and>
   card (UNIV :: MatteMode set) = 3 \<and>
   MatteMode_from_string ''none'' = Inr NONE \<and>
   MatteMode_from_string ''alpha'' = Inr ALPHA \<and>
   MatteMode_from_string ''luminance'' = Inr LUMINANCE \<and>
   (\<forall>s. s \<notin> {''none'', ''alpha'', ''luminance''} \<longrightarrow>
      MatteMode_from_string s = Inl (ValueError (''Unknown matte mode: '' @ s)))"
proof -
  have u: "(UNIV :: MatteMode set) = {NONE, ALPHA, LUMINANCE}"
  proof -
    have "m \<in> {NONE, ALPHA, LUMINANCE}" for m by (cases m) simp_all
    then show ?thesis by blast
  qed
  have c: "card (UNIV :: MatteMode set) = 3" unfolding u by simp
  have r: "MatteMode_from_string s = Inl (ValueError (''Unknown matte mode: '' @ s))"
    if "s \<notin> {''none'', ''alpha'', ''luminance''}" for s
    using that by (simp add: MatteMode_from_string_def STRING_TO_MATTE_MODE_def)
  show ?thesis using u c r
    by (simp add: MatteMode_from_string_def STRING_TO_MATTE_MODE_def)
qed

theorem MatteMode_from_string_three_witness:
  "''luma'' \<notin> {''none'', ''alpha'', ''luminance''} \<and>
   MatteMode_from_string ''luma'' = Inl (ValueError ''Unknown matte mode: luma'')"
proof -
  have a: "''luma'' \<notin> {''none'', ''alpha'', ''luminance''}" by simp
  note r = MatteMode_from_string_three [THEN conjunct2, THEN conjunct2, THEN conjunct2,
    THEN conjunct2, THEN conjunct2, rule_format]
  from r [OF a] have "MatteMode_from_string ''luma'' = Inl (ValueError ''Unknown matte mode: luma'')"
    by simp
  with a show ?thesis by (intro conjI)
qed


section \<open>The timeline file\<close>

lemma timeline_loop_rows:
  "timeline_loop h tp prev ml clips start frame = Inr rows \<Longrightarrow>
   \<exists>new. rows = frame @ new \<and> length new = length clips \<and>
     (\<forall>i < length new.
        start_time (new ! i) = (if i = 0 then start else end_time (new ! (i - 1))) \<and>
        end_time (new ! i) = start_time (new ! i) + fst (clips ! i))"
proof (induction clips arbitrary: start frame)
  case Nil
  then show ?case by simp
next
  case (Cons clip rest)
  obtain d f raw where clip: "clip = (d, f, raw)" by (cases clip) auto
  from Cons.prems clip have
    "\<exists>row. timeline_loop h tp prev ml rest (start + d) (frame @ [row]) = Inr rows \<and>
       start_time row = start \<and> end_time row = start + d"
    by (fastforce simp: Let_def split: list.splits option.splits prod.splits)
  then obtain row where
    rec: "timeline_loop h tp prev ml rest (start + d) (frame @ [row]) = Inr rows" and
    row: "start_time row = start" "end_time row = start + d"
    by blast
  from Cons.IH [OF rec] obtain new where
    new: "rows = (frame @ [row]) @ new" "length new = length rest" and
    chain: "\<forall>i < length new.
        start_time (new ! i) = (if i = 0 then start + d else end_time (new ! (i - 1))) \<and>
        end_time (new ! i) = start_time (new ! i) + fst (rest ! i)"
    by blast
  have "\<forall>i < length (row # new).
        start_time ((row # new) ! i) =
          (if i = 0 then start else end_time ((row # new) ! (i - 1))) \<and>
        end_time ((row # new) ! i) = start_time ((row # new) ! i) + fst ((clip # rest) ! i)"
  proof (intro allI impI)
    fix i assume i: "i < length (row # new)"
    show "start_time ((row # new) ! i) =
          (if i = 0 then start else end_time ((row # new) ! (i - 1))) \<and>
        end_time ((row # new) ! i) = start_time ((row # new) ! i) + fst ((clip # rest) ! i)"
    proof (cases i)
      case 0
      with row clip show ?thesis by simp
    next
      case (Suc j)
      with i have j: "j < length new" by simp
      with chain have c: "start_time (new ! j) = (if j = 0 then start + d else end_time (new ! (j - 1)))"
        "end_time (new ! j) = start_time (new ! j) + fst (rest ! j)" by blast+
      show ?thesis
      proof (cases j)
        case 0
        with Suc c row show ?thesis by simp
      next
        case (Suc k)
        with \<open>i = Suc j\<close> c show ?thesis by simp
      qed
    qed
  qed
  with new show ?case by (intro exI [of _ "row # new"]) simp
qed

text \<open>
  \<^verbatim>\<open>make_timeline_file\<close> writes the file exactly when every txt file is named after one of
  the two characters; otherwise it raises and writes nothing.
\<close>

lemma timeline_loop_returns:
  "(\<forall>clip \<in> set clips. \<exists>a ch more.
       split (CHR ''_'') (splitext_root (fst (snd clip))) = a # ch # more \<and>
       ch \<in> fst ` set character_dict) \<Longrightarrow>
   \<exists>rows. timeline_loop h tp prev ml clips start frame = Inr rows"
proof (induction clips arbitrary: start frame)
  case Nil
  then show ?case by simp
next
  case (Cons clip rest)
  obtain d f raw where clip: "clip = (d, f, raw)" by (cases clip) auto
  from Cons.prems clip obtain a ch more where
    sp: "split (CHR ''_'') (splitext_root f) = a # ch # more" and
    ch: "ch \<in> fst ` set character_dict" by auto
  from ch obtain c where c: "map_of character_dict ch = Some c"
    by (metis map_of_eq_None_iff not_Some_eq)
  from Cons.prems have "\<forall>clip \<in> set rest. \<exists>a ch more.
       split (CHR ''_'') (splitext_root (fst (snd clip))) = a # ch # more \<and>
       ch \<in> fst ` set character_dict" by simp
  from Cons.IH [OF this] clip sp c show ?case
    by (simp add: Let_def split: prod.splits)
qed

text \<open>
  C10.  The rows that \<^verbatim>\<open>make_timeline_file\<close> writes partition the time without gaps: there
  is one row for each pair of a wav file and a txt file, the first row starts at 0, each
  row ends at its start plus the duration of its wav file, and each further row starts
  where the row before it ends.
\<close>

theorem make_timeline_file_contiguous:
  assumes "make_timeline_file h tp prev ml wav_files txt_files = Inr rows"
  shows "length rows = min (length wav_files) (length txt_files) \<and>
         (rows \<noteq> [] \<longrightarrow> start_time (rows ! 0) = 0) \<and>
         (\<forall>i < length rows. end_time (rows ! i) = start_time (rows ! i) + wav_files ! i) \<and>
         (\<forall>i. Suc i < length rows \<longrightarrow> start_time (rows ! Suc i) = end_time (rows ! i))"
proof -
  from assms have "timeline_loop h tp prev ml (zip wav_files txt_files) 0 [] = Inr rows"
    by (simp add: make_timeline_file_def)
  from timeline_loop_rows [OF this] have
    len: "length rows = length (zip wav_files txt_files)" and
    chain: "\<forall>i < length rows.
        start_time (rows ! i) = (if i = 0 then 0 else end_time (rows ! (i - 1))) \<and>
        end_time (rows ! i) = start_time (rows ! i) + fst (zip wav_files txt_files ! i)"
    by auto
  have 1: "length rows = min (length wav_files) (length txt_files)"
    using len by simp
  have 2: "rows \<noteq> [] \<longrightarrow> start_time (rows ! 0) = 0"
    using chain by (cases rows) auto
  have 3: "\<forall>i < length rows. end_time (rows ! i) = start_time (rows ! i) + wav_files ! i"
    using chain len by simp
  have 4: "\<forall>i. Suc i < length rows \<longrightarrow> start_time (rows ! Suc i) = end_time (rows ! i)"
  proof (intro allI impI)
    fix i assume "Suc i < length rows"
    with chain have "start_time (rows ! Suc i) =
        (if Suc i = 0 then 0 else end_time (rows ! (Suc i - 1)))" by blast
    then show "start_time (rows ! Suc i) = end_time (rows ! i)" by simp
  qed
  from 1 2 3 4 show ?thesis by (intro conjI)
qed

text \<open>
  Two clips of 1.5 and 2 seconds, spoken by the two characters, with no earlier timeline
  file and no line breaking.
\<close>

theorem make_timeline_file_contiguous_witness:
  "make_timeline_file (take 6) (\<lambda>s. s) None 0 [3 / 2, 2 :: real]
     [(''001_'' @
       [CHR 0xE3, CHR 0x81, CHR 0x9A, CHR 0xE3, CHR 0x82, CHR 0x93, CHR 0xE3, CHR 0x81,
        CHR 0xA0, CHR 0xE3, CHR 0x82, CHR 0x82, CHR 0xE3, CHR 0x82, CHR 0x93, CHR 0xEF,
        CHR 0xBC, CHR 0x88, CHR 0xE3, CHR 0x83, CHR 0x8E, CHR 0xE3, CHR 0x83, CHR 0xBC,
        CHR 0xE3, CHR 0x83, CHR 0x9E, CHR 0xE3, CHR 0x83, CHR 0xAB, CHR 0xEF, CHR 0xBC,
        CHR 0x89] @ ''_001.txt'', ''hello''),
      (''002_'' @
       [CHR 0xE5, CHR 0x9B, CHR 0x9B, CHR 0xE5, CHR 0x9B, CHR 0xBD, CHR 0xE3, CHR 0x82,
        CHR 0x81, CHR 0xE3, CHR 0x81, CHR 0x9F, CHR 0xE3, CHR 0x82, CHR 0x93, CHR 0xEF,
        CHR 0xBC, CHR 0x88, CHR 0xE3, CHR 0x83, CHR 0x8E, CHR 0xE3, CHR 0x83, CHR 0xBC,
        CHR 0xE3, CHR 0x83, CHR 0x9E, CHR 0xE3, CHR 0x83, CHR 0xAB, CHR 0xEF, CHR 0xBC,
        CHR 0x89] @ ''_002.txt'', ''world'')] =
   Inr [\<lparr>start_time = 0, end_time = 3 / 2, character = ''zunda'', hash = ''hello'',
         row_text = ''hello'', slide = 0, status = ''n''\<rparr>,
        \<lparr>start_time = 3 / 2, end_time = 7 / 2, character = ''metan'', hash = ''world'',
         row_text = ''world'', slide = 0, status = ''n''\<rparr>] \<and>
   length [\<lparr>start_time = 0, end_time = 3 / 2, character = ''zunda'', hash = ''hello'',
            row_text = ''hello'', slide = 0, status = ''n''\<rparr>,
           \<lparr>start_time = 3 / 2 :: real, end_time = 7 / 2, character = ''metan'',
            hash = ''world'', row_text = ''world'', slide = 0, status = ''n''\<rparr>] =
     min (length [3 / 2, 2 :: real]) (length [(''a'', ''b''), (''c'', ''d'')])"
proof -
  have e: "make_timeline_file (take 6) (\<lambda>s. s) None 0 [3 / 2, 2 :: real]
     [(''001_'' @
       [CHR 0xE3, CHR 0x81, CHR 0x9A, CHR 0xE3, CHR 0x82, CHR 0x93, CHR 0xE3, CHR 0x81,
        CHR 0xA0, CHR 0xE3, CHR 0x82, CHR 0x82, CHR 0xE3, CHR 0x82, CHR 0x93, CHR 0xEF,
        CHR 0xBC, CHR 0x88, CHR 0xE3, CHR 0x83, CHR 0x8E, CHR 0xE3, CHR 0x83, CHR 0xBC,
        CHR 0xE3, CHR 0x83, CHR 0x9E, CHR 0xE3, CHR 0x83, CHR 0xAB, CHR 0xEF, CHR 0xBC,
        CHR 0x89] @ ''_001.txt'', ''hello''),
      (''002_'' @
       [CHR 0xE5, CHR 0x9B, CHR 0x9B, CHR 0xE5, CHR 0x9B, CHR 0xBD, CHR 0xE3, CHR 0x82,
        CHR 0x81, CHR 0xE3, CHR 0x81, CHR 0x9F, CHR 0xE3, CHR 0x82, CHR 0x93, CHR 0xEF,
        CHR 0xBC, CHR 0x88, CHR 0xE3, CHR 0x83, CHR 0x8E, CHR 0xE3, CHR 0x83, CHR 0xBC,
        CHR 0xE3, CHR 0x83, CHR 0x9E, CHR 0xE3, CHR 0x83, CHR 0xAB, CHR 0xEF, CHR 0xBC,
        CHR 0x89] @ ''_002.txt'', ''world'')] =
   Inr [\<lparr>start_time = 0, end_time = 3 / 2, character = ''zunda'', hash = ''hello'',
         row_text = ''hello'', slide = 0, status = ''n''\<rparr>,
        \<lparr>start_time = 3 / 2, end_time = 7 / 2, character = ''metan'', hash = ''world'',
         row_text = ''world'', slide = 0, status = ''n''\<rparr>]"
    by (simp add: make_timeline_file_def splitext_root_def split_def character_dict_def
          get_extra_columns_def transform_text_def Let_def)
  from make_timeline_file_contiguous [OF e] e show ?thesis by simp
qed


section \<open>The style line of an ASS file\<close>

lemma digit_char_is_digit: "d < 10 \<Longrightarrow> digit_char d \<in> set ''0123456789''"
  unfolding digit_char_def by (rule nth_mem) simp

lemma str_nat_digits: "set (str_nat n) \<subseteq> set ''0123456789''"
proof (induction n rule: str_nat.induct)
  case (1 n)
  show ?case
  proof (cases "n < 10")
    case True
    then show ?thesis
      using digit_char_is_digit [of n] by (subst str_nat.simps) simp
  next
    case False
    with 1 have "set (str_nat (n div 10)) \<subseteq> set ''0123456789''" by simp
    moreover have "digit_char (n mod 10) \<in> set ''0123456789''"
      by (rule digit_char_is_digit) simp
    ultimately show ?thesis using False by (subst str_nat.simps) simp
  qed
qed

lemma str_nat_no_comma: "CHR '','' \<notin> set (str_nat n)"
  using str_nat_digits [of n] by auto

lemma str_int_no_comma: "CHR '','' \<notin> set (str_int i)"
  by (simp add: str_int_def str_nat_no_comma)

lemma split_acc_no_sep: "c \<notin> set xs \<Longrightarrow> split_acc c cur xs = [cur @ xs]"
  by (induction xs arbitrary: cur) auto

lemma split_acc_first: 
  "c \<notin> set xs \<Longrightarrow> split_acc c cur (xs @ c # rest) = (cur @ xs) # split_acc c [] rest"
  by (induction xs arbitrary: cur) auto

lemma split_acc_last:
  "c \<notin> set ys \<Longrightarrow> split_acc c cur (pre @ c # ys) = split_acc c cur pre @ [ys]"
  by (induction pre arbitrary: cur) (auto simp: split_acc_no_sep)

lemma split_last: "c \<notin> set ys \<Longrightarrow> split c (pre @ c # ys) = split c pre @ [ys]"
  by (simp add: split_def split_acc_last)

lemma make_ass_style_tail:
  "\<exists>pre. make_ass_style s =
     pre @ CHR '','' # ''2'' @ CHR '','' # str_int (margin_l s) @ CHR '','' # str_int (margin_r s) @
       CHR '','' # str_int (margin_v s) @ CHR '','' # ''1''"
  by (rule exI [of _ "''Style: '' @ name s @ '','' @ font_name s @ '','' @ str_int (font_size s) @ '','' @
     primary_color s @ '','' @ secondary_color s @ '','' @
     outline_color s @ '','' @ back_color s @ '','' @
     str_int (int_of_bool (bold s)) @ '','' @ str_int (int_of_bool (italic s)) @ '','' @
     str_int (int_of_bool (underline s)) @ '','' @ str_int (int_of_bool (strike_out s)) @ '','' @
     str_int (scale_x s) @ '','' @ str_int (scale_y s) @ '','' @ str_int (spacing s) @ '','' @
     str_int (angle s) @ '','' @ str_int (border_style s) @ '','' @
     str_int (outline s) @ '','' @ str_int (shadow s)"]) (simp add: make_ass_style_def)

lemma make_ass_style_last_columns:
  "\<exists>front. split (CHR '','') (make_ass_style s) =
     front @ [''2'', str_int (margin_l s), str_int (margin_r s), str_int (margin_v s), ''1'']"
proof -
  from make_ass_style_tail obtain pre where
    p: "make_ass_style s =
     pre @ CHR '','' # ''2'' @ CHR '','' # str_int (margin_l s) @ CHR '','' # str_int (margin_r s) @
       CHR '','' # str_int (margin_v s) @ CHR '','' # ''1''"
    by blast
  let ?c = "CHR '',''"
  have "split ?c (make_ass_style s) =
      split ?c ((((pre @ ?c # ''2'') @ ?c # str_int (margin_l s)) @ ?c # str_int (margin_r s)) @
         ?c # str_int (margin_v s)) @ [''1'']"
    unfolding p using split_last [of ?c "''1''"
        "(((pre @ ?c # ''2'') @ ?c # str_int (margin_l s)) @ ?c # str_int (margin_r s)) @
         ?c # str_int (margin_v s)"]
    by simp
  also have "split ?c ((((pre @ ?c # ''2'') @ ?c # str_int (margin_l s)) @ ?c # str_int (margin_r s)) @
         ?c # str_int (margin_v s)) =
      split ?c (((pre @ ?c # ''2'') @ ?c # str_int (margin_l s)) @ ?c # str_int (margin_r s)) @
        [str_int (margin_v s)]"
    by (rule split_last) (rule str_int_no_comma)
  also have "split ?c (((pre @ ?c # ''2'') @ ?c # str_int (margin_l s)) @ ?c # str_int (margin_r s)) =
      split ?c ((pre @ ?c # ''2'') @ ?c # str_int (margin_l s)) @ [str_int (margin_r s)]"
    by (rule split_last) (rule str_int_no_comma)
  also have "split ?c ((pre @ ?c # ''2'') @ ?c # str_int (margin_l s)) =
      split ?c (pre @ ?c # ''2'') @ [str_int (margin_l s)]"
    by (rule split_last) (rule str_int_no_comma)
  also have "split ?c (pre @ ?c # ''2'') = split ?c pre @ [''2'']"
    by (rule split_last) simp
  finally show ?thesis by simp
qed

lemma make_ass_style_columns:
  assumes "CHR '','' \<notin> set (name s)" "CHR '','' \<notin> set (font_name s)"
    "CHR '','' \<notin> set (primary_color s)" "CHR '','' \<notin> set (secondary_color s)"
    "CHR '','' \<notin> set (outline_color s)" "CHR '','' \<notin> set (back_color s)"
  shows "split (CHR '','') (make_ass_style s) =
     [''Style: '' @ name s, font_name s, str_int (font_size s), primary_color s,
      secondary_color s, outline_color s, back_color s,
      str_int (int_of_bool (bold s)), str_int (int_of_bool (italic s)),
      str_int (int_of_bool (underline s)), str_int (int_of_bool (strike_out s)),
      str_int (scale_x s), str_int (scale_y s), str_int (spacing s), str_int (angle s),
      str_int (border_style s), str_int (outline s), str_int (shadow s), ''2'',
      str_int (margin_l s), str_int (margin_r s), str_int (margin_v s), ''1'']"
  using assms
  by (simp add: make_ass_style_def split_def split_acc_first split_acc_no_sep str_int_no_comma)

text \<open>
  C9.  The style line does not depend on the field \<^verbatim>\<open>alignment\<close>: two styles that differ
  only there give the same line.  The line ends with the columns \<^verbatim>\<open>2\<close>, margin_l, margin_r,
  margin_v, \<^verbatim>\<open>1\<close>: its last column (Encoding) is the constant 1 and the fifth from the end
  (Alignment) is the constant 2.  When no string field contains a comma the line has the 23
  columns of the format line, Alignment being the 19th and Encoding the 23rd.
\<close>

theorem make_ass_style_ignores_alignment:
  "make_ass_style (s\<lparr>alignment := a\<rparr>) = make_ass_style s \<and>
   (let cols = split (CHR '','') (make_ass_style s)
    in 5 \<le> length cols \<and> cols ! (length cols - 5) = ''2'' \<and> cols ! (length cols - 1) = ''1'') \<and>
   (CHR '','' \<notin> set (name s @ font_name s @ primary_color s @ secondary_color s @
                      outline_color s @ back_color s) \<longrightarrow>
    (let cols = split (CHR '','') (make_ass_style s)
     in length cols = 23 \<and> cols ! 18 = ''2'' \<and> cols ! 22 = ''1''))"
proof (intro conjI impI)
  show "make_ass_style (s\<lparr>alignment := a\<rparr>) = make_ass_style s"
    by (simp add: make_ass_style_def)
next
  from make_ass_style_last_columns obtain front where
    "split (CHR '','') (make_ass_style s) =
     front @ [''2'', str_int (margin_l s), str_int (margin_r s), str_int (margin_v s), ''1'']"
    by blast
  then show "let cols = split (CHR '','') (make_ass_style s)
    in 5 \<le> length cols \<and> cols ! (length cols - 5) = ''2'' \<and> cols ! (length cols - 1) = ''1''"
    by (simp add: Let_def nth_append)
next
  assume "CHR '','' \<notin> set (name s @ font_name s @ primary_color s @ secondary_color s @
                      outline_color s @ back_color s)"
  then have "split (CHR '','') (make_ass_style s) =
     [''Style: '' @ name s, font_name s, str_int (font_size s), primary_color s,
      secondary_color s, outline_color s, back_color s,
      str_int (int_of_bool (bold s)), str_int (int_of_bool (italic s)),
      str_int (int_of_bool (underline s)), str_int (int_of_bool (strike_out s)),
      str_int (scale_x s), str_int (scale_y s), str_int (spacing s), str_int (angle s),
      str_int (border_style s), str_int (outline s), str_int (shadow s), ''2'',
      str_int (margin_l s), str_int (margin_r s), str_int (margin_v s), ''1'']"
    by (intro make_ass_style_columns) simp_all
  then show "let cols = split (CHR '','') (make_ass_style s)
     in length cols = 23 \<and> cols ! 18 = ''2'' \<and> cols ! 22 = ''1''"
    by (simp add: Let_def)
qed

theorem make_ass_style_ignores_alignment_witness:
  "make_ass_style (ASSStyleType_default\<lparr>alignment := TOP_LEFT\<rparr>) =
     ''Style: Default,Helvetica,60,&Hffffff,&Hffffff,&H0,&H0,0,0,0,0,100,100,0,0,1,5,0,2,10,10,30,1'' \<and>
   CHR '','' \<notin> set (name ASSStyleType_default @ font_name ASSStyleType_default @
     primary_color ASSStyleType_default @ secondary_color ASSStyleType_default @
     outline_color ASSStyleType_default @ back_color ASSStyleType_default) \<and>
   split (CHR '','') (make_ass_style ASSStyleType_default) ! 18 = ''2'' \<and>
   split (CHR '','') (make_ass_style ASSStyleType_default) ! 22 = ''1''"
proof -
  have a: "CHR '','' \<notin> set (name ASSStyleType_default @ font_name ASSStyleType_default @
     primary_color ASSStyleType_default @ secondary_color ASSStyleType_default @
     outline_color ASSStyleType_default @ back_color ASSStyleType_default)"
    by (simp add: ASSStyleType_default_def)
  have b: "make_ass_style ASSStyleType_default =
     ''Style: Default,Helvetica,60,&Hffffff,&Hffffff,&H0,&H0,0,0,0,0,100,100,0,0,1,5,0,2,10,10,30,1''"
    by (simp add: make_ass_style_def ASSStyleType_default_def str_int_def int_of_bool_def
          str_nat_eval)
  note t = make_ass_style_ignores_alignment [where s = ASSStyleType_default and a = TOP_LEFT]
  from t have 1: "make_ass_style (ASSStyleType_default\<lparr>alignment := TOP_LEFT\<rparr>) =
      make_ass_style ASSStyleType_default" by (rule conjunct1)
  from t [THEN conjunct2, THEN conjunct2, rule_format, OF a]
  have 2: "split (CHR '','') (make_ass_style ASSStyleType_default) ! 18 = ''2''"
    "split (CHR '','') (make_ass_style ASSStyleType_default) ! 22 = ''1''"
    by (simp_all only: Let_def)
  from 1 b have 3: "make_ass_style (ASSStyleType_default\<lparr>alignment := TOP_LEFT\<rparr>) =
     ''Style: Default,Helvetica,60,&Hffffff,&Hffffff,&H0,&H0,0,0,0,0,100,100,0,0,1,5,0,2,10,10,30,1''"
    by (rule trans)
  from 3 a 2 show ?thesis by (intro conjI)
qed


section \<open>The two writers of SRT files\<close>

lemma replace_absent:
  "old \<noteq> [] \<Longrightarrow> \<not> sublist old s \<Longrightarrow> replace old new s = s"
proof (induction s)
  case Nil
  then show ?case by simp
next
  case (Cons c cs)
  from Cons.prems(2) have np: "\<not> prefix old (c # cs)" and ns: "\<not> sublist old cs"
    unfolding sublist_Cons_right by blast+
  from Cons.IH [OF Cons.prems(1) ns] have ih: "replace old new cs = cs" .
  have "replace old new (c # cs) = c # replace old new cs"
    using Cons.prems(1) np by (simp only: replace.simps if_False)
  with ih show ?case by (simp only:)
qed

lemma srt_loops_agree:
  "write_srt_loop F i (zip (map start_time rows) (zip (map end_time rows) (map row_text rows))) out =
   make_srt_loop F i
     (map (\<lambda>r. r\<lparr>row_text := replace NL [] (replace [CHR 0x5C, CHR ''n''] [] (row_text r))\<rparr>) rows)
     out"
  by (induction rows arbitrary: i out) (simp_all add: Let_def srt_time_line_def)

lemma make_srt_loop_cong:
  "(\<forall>r \<in> set rows. row_text (f r) = row_text r \<and> start_time (f r) = start_time r \<and>
       end_time (f r) = end_time r) \<Longrightarrow>
   make_srt_loop F i (map f rows) out = make_srt_loop F i rows out"
  by (induction rows arbitrary: i out) (simp_all add: Let_def)

text \<open>
  C8, as stated, fails on a text with the two characters backslash and n (what
  \<^verbatim>\<open>_insert_newlines\<close> puts between the lines of a timeline text): \<^verbatim>\<open>write_srt_file\<close> removes
  them, \<^verbatim>\<open>make_srt_file\<close> writes the text as it is.
\<close>

theorem srt_writers_differ_counterexample:
  "write_srt_file exact_ops [0] [2] [[CHR ''a'', CHR 0x5C, CHR ''n'', CHR ''b'']] =
     Inr (''1'' @ NL @ ''00:00:00,000 --> 00:00:02,000'' @ NL @ ''ab'' @ NL @ NL) \<and>
   make_srt_file exact_ops [\<lparr>start_time = 0, end_time = 2, character = ''zunda'', hash = ''0a1b2c'',
                   row_text = [CHR ''a'', CHR 0x5C, CHR ''n'', CHR ''b''], slide = 0,
                   status = ''n''\<rparr>] =
     ''1'' @ NL @ ''00:00:00,000 --> 00:00:02,000'' @ NL @
     [CHR ''a'', CHR 0x5C, CHR ''n'', CHR ''b''] @ NL @ NL"
  by code_simp

text \<open>
  C8, amended.  On the same rows, the body written by \<^verbatim>\<open>write_srt_file\<close> is the body that
  \<^verbatim>\<open>make_srt_file\<close> writes once every backslash-n pair and then every newline character
  has been removed from the texts: same indices, same timestamp lines.  The two bodies are
  equal when no text contains a backslash-n pair or a newline character.  This holds for
  any arithmetic of the floats, which the two writers use in the same way.
\<close>

theorem srt_writers_agree_on_cleaned_text:
  "write_srt_file F (map start_time rows) (map end_time rows) (map row_text rows) =
     Inr (make_srt_file F
       (map (\<lambda>r. r\<lparr>row_text := replace NL [] (replace [CHR 0x5C, CHR ''n''] [] (row_text r))\<rparr>)
          rows)) \<and>
   ((\<forall>r \<in> set rows. \<not> sublist [CHR 0x5C, CHR ''n''] (row_text r) \<and>
                      CHR 0x0A \<notin> set (row_text r)) \<longrightarrow>
    write_srt_file F (map start_time rows) (map end_time rows) (map row_text rows) =
      Inr (make_srt_file F rows))"
proof (intro conjI impI)
  show eq: "write_srt_file F (map start_time rows) (map end_time rows) (map row_text rows) =
     Inr (make_srt_file F
       (map (\<lambda>r. r\<lparr>row_text := replace NL [] (replace [CHR 0x5C, CHR ''n''] [] (row_text r))\<rparr>)
          rows))"
    by (simp add: write_srt_file_def make_srt_file_def srt_loops_agree)
  assume clean: "\<forall>r \<in> set rows. \<not> sublist [CHR 0x5C, CHR ''n''] (row_text r) \<and>
                      CHR 0x0A \<notin> set (row_text r)"
  have "replace NL [] (replace [CHR 0x5C, CHR ''n''] [] (row_text r)) = row_text r"
    if "r \<in> set rows" for r
  proof -
    from clean that have a: "\<not> sublist [CHR 0x5C, CHR ''n''] (row_text r)"
      and b: "CHR 0x0A \<notin> set (row_text r)" by blast+
    from b have nb: "\<not> sublist NL (row_text r)"
      by (auto simp: sublist_def)
    have 1: "replace [CHR 0x5C, CHR ''n''] [] (row_text r) = row_text r"
      by (rule replace_absent) (simp, rule a)
    have 2: "replace NL [] (row_text r) = row_text r"
      by (rule replace_absent) (simp, rule nb)
    show ?thesis by (simp only: 1 2)
  qed
  then have "make_srt_loop F 0
       (map (\<lambda>r. r\<lparr>row_text := replace NL [] (replace [CHR 0x5C, CHR ''n''] [] (row_text r))\<rparr>)
          rows) [] = make_srt_loop F 0 rows []"
    by (intro make_srt_loop_cong) simp
  with eq show "write_srt_file F (map start_time rows) (map end_time rows) (map row_text rows) =
      Inr (make_srt_file F rows)"
    by (simp add: make_srt_file_def)
qed

theorem srt_writers_agree_on_cleaned_text_witness:
  "\<not> sublist [CHR 0x5C, CHR ''n''] ''hello'' \<and> CHR 0x0A \<notin> set ''hello'' \<and>
   write_srt_file exact_ops [0, 3 / 2] [3 / 2, 3725] [''hello'', ''hello''] =
     Inr (make_srt_file exact_ops
       [\<lparr>start_time = 0, end_time = 3 / 2, character = ''zunda'', hash = ''aaf4c6'',
         row_text = ''hello'', slide = 0, status = ''n''\<rparr>,
        \<lparr>start_time = 3 / 2, end_time = 3725, character = ''metan'', hash = ''aaf4c6'',
         row_text = ''hello'', slide = 1, status = ''n''\<rparr>]) \<and>
   make_srt_file exact_ops
       [\<lparr>start_time = 0, end_time = 3 / 2, character = ''zunda'', hash = ''aaf4c6'',
         row_text = ''hello'', slide = 0, status = ''n''\<rparr>,
        \<lparr>start_time = 3 / 2, end_time = 3725, character = ''metan'', hash = ''aaf4c6'',
         row_text = ''hello'', slide = 1, status = ''n''\<rparr>] =
     ''1'' @ NL @ ''00:00:00,000 --> 00:00:01,500'' @ NL @ ''hello'' @ NL @ NL @
     ''2'' @ NL @ ''00:00:01,500 --> 01:02:05,000'' @ NL @ ''hello'' @ NL @ NL"
proof -
  have a: "\<not> sublist [CHR 0x5C, CHR ''n''] ''hello''"
    by code_simp
  have b: "CHR 0x0A \<notin> set ''hello''" by simp
  have c: "make_srt_file exact_ops
       [\<lparr>start_time = 0, end_time = 3 / 2, character = ''zunda'', hash = ''aaf4c6'',
         row_text = ''hello'', slide = 0, status = ''n''\<rparr>,
        \<lparr>start_time = 3 / 2, end_time = 3725, character = ''metan'', hash = ''aaf4c6'',
         row_text = ''hello'', slide = 1, status = ''n''\<rparr>] =
     ''1'' @ NL @ ''00:00:00,000 --> 00:00:01,500'' @ NL @ ''hello'' @ NL @ NL @
     ''2'' @ NL @ ''00:00:01,500 --> 01:02:05,000'' @ NL @ ''hello'' @ NL @ NL"
    by code_simp
  note t = srt_writers_agree_on_cleaned_text [where F = exact_ops and rows =
       "[\<lparr>start_time = 0, end_time = 3 / 2, character = ''zunda'', hash = ''aaf4c6'',
         row_text = ''hello'', slide = 0, status = ''n''\<rparr>,
        \<lparr>start_time = 3 / 2, end_time = 3725, character = ''metan'', hash = ''aaf4c6'',
         row_text = ''hello'', slide = 1, status = ''n''\<rparr>]", THEN conjunct2, THEN mp]
  have d: "write_srt_file exact_ops [0, 3 / 2] [3 / 2, 3725] [''hello'', ''hello''] =
     Inr (make_srt_file exact_ops
       [\<lparr>start_time = 0, end_time = 3 / 2, character = ''zunda'', hash = ''aaf4c6'',
         row_text = ''hello'', slide = 0, status = ''n''\<rparr>,
        \<lparr>start_time = 3 / 2, end_time = 3725, character = ''metan'', hash = ''aaf4c6'',
         row_text = ''hello'', slide = 1, status = ''n''\<rparr>])"
    using t a b by simp
  from a b d c show ?thesis by (intro conjI)
qed


section \<open>The formats of the subtitle files\<close>

subsection \<open>Zero filling\<close>

lemma zero_fill_digits: "set (zero_fill w (str_nat n)) \<subseteq> set ''0123456789''"
proof -
  have "set (replicate (w - length (str_nat n)) CHR ''0'') \<subseteq> set ''0123456789''"
    by (auto simp: set_replicate_conv_if)
  with str_nat_digits [of n] show ?thesis
    unfolding zero_fill_def by (simp only: set_append Un_subset_iff)
qed

lemma zero_fill_length: "length (zero_fill w ds) = max w (length ds)"
  by (simp add: zero_fill_def)

lemma zero_fill_suffix: "suffix ds (zero_fill w ds)"
  by (simp add: zero_fill_def suffix_def)

lemma format_0d_nonneg: "0 \<le> i \<Longrightarrow> format_0d w i = zero_fill w (str_nat (nat i))"
  by (simp add: format_0d_def)

subsection \<open>The fields of a time\<close>

lemma sign_respecting_div:
  "sign_respecting F \<Longrightarrow> float_time F x \<Longrightarrow> 0 < k \<Longrightarrow> float_time F (float_div F x k)"
  unfolding sign_respecting_def by blast

lemma sign_respecting_mod:
  "sign_respecting F \<Longrightarrow> float_time F x \<Longrightarrow> 0 < k \<Longrightarrow> float_time F (float_mod F x k)"
  unfolding sign_respecting_def by blast

lemma sign_respecting_mul:
  "sign_respecting F \<Longrightarrow> float_time F x \<Longrightarrow> 0 < k \<Longrightarrow> float_time F (float_mul F x k)"
  unfolding sign_respecting_def by blast

lemma sign_respecting_int:
  assumes "sign_respecting F" and "float_time F x"
  shows "0 \<le> float_int F x"
proof -
  from assms have "float_time F x \<and> (0::int) < 1 \<longrightarrow> 0 \<le> float_int F x"
    unfolding sign_respecting_def by blast
  with assms(2) show ?thesis by simp
qed

lemma exact_ops_sign_respecting: "sign_respecting exact_ops"
proof -
  have "0 \<le> x - of_int k * of_int \<lfloor>x / of_int k\<rfloor>" if "0 \<le> x" "0 < k" for x :: real and k :: int
  proof -
    have "of_int \<lfloor>x / of_int k\<rfloor> \<le> x / of_int k" by (rule of_int_floor_le)
    with that(2) have "of_int k * of_int \<lfloor>x / of_int k\<rfloor> \<le> of_int k * (x / of_int k)"
      by (intro mult_left_mono) simp_all
    also from that(2) have "of_int k * (x / of_int k) = x" by simp
    finally show ?thesis by simp
  qed
  then show ?thesis
    by (simp add: sign_respecting_def exact_ops_def)
qed

lemma get_time_fields:
  assumes "sign_respecting F" and "float_time F t"
  shows "get_time F t =
     hh_mm_ss_cc (float_int F (float_div F t 3600))
       (float_int F (float_mod F (float_div F t 60) 60))
       (float_int F (float_mod F t 60))
       (float_int F (float_mul F (float_mod F t 1) 100))"
proof -
  note sr = assms(1) and t = assms(2)
  have h: "0 \<le> float_int F (float_div F t 3600)"
    by (intro sign_respecting_int [OF sr] sign_respecting_div [OF sr] t) simp
  have m: "0 \<le> float_int F (float_mod F (float_div F t 60) 60)"
    by (intro sign_respecting_int [OF sr] sign_respecting_mod [OF sr]
          sign_respecting_div [OF sr] t) simp_all
  have s: "0 \<le> float_int F (float_mod F t 60)"
    by (intro sign_respecting_int [OF sr] sign_respecting_mod [OF sr] t) simp
  have c: "0 \<le> float_int F (float_mul F (float_mod F t 1) 100)"
    by (intro sign_respecting_int [OF sr] sign_respecting_mul [OF sr]
          sign_respecting_mod [OF sr] t) simp_all
  show ?thesis
    by (simp only: get_time_def hh_mm_ss_cc_def format_0d_nonneg [OF h] format_0d_nonneg [OF m]
          format_0d_nonneg [OF s] format_0d_nonneg [OF c])
qed

lemma srt_stamp_fields:
  assumes "sign_respecting F" and "float_time F t"
  shows "format_0d 2 (float_int F (float_div F t 3600)) @ '':'' @
     format_0d 2 (float_int F (float_mod F (float_div F t 60) 60)) @ '':'' @
     format_0d 2 (float_int F (float_mod F t 60)) @ '','' @
     format_0d 3 (float_int F (float_mul F (float_mod F t 1) 1000)) =
     hh_mm_ss_mmm (float_int F (float_div F t 3600))
       (float_int F (float_mod F (float_div F t 60) 60))
       (float_int F (float_mod F t 60))
       (float_int F (float_mul F (float_mod F t 1) 1000))"
proof -
  note sr = assms(1) and t = assms(2)
  have h: "0 \<le> float_int F (float_div F t 3600)"
    by (intro sign_respecting_int [OF sr] sign_respecting_div [OF sr] t) simp
  have m: "0 \<le> float_int F (float_mod F (float_div F t 60) 60)"
    by (intro sign_respecting_int [OF sr] sign_respecting_mod [OF sr]
          sign_respecting_div [OF sr] t) simp_all
  have s: "0 \<le> float_int F (float_mod F t 60)"
    by (intro sign_respecting_int [OF sr] sign_respecting_mod [OF sr] t) simp
  have c: "0 \<le> float_int F (float_mul F (float_mod F t 1) 1000)"
    by (intro sign_respecting_int [OF sr] sign_respecting_mul [OF sr]
          sign_respecting_mod [OF sr] t) simp_all
  show ?thesis
    by (simp only: hh_mm_ss_mmm_def format_0d_nonneg [OF h] format_0d_nonneg [OF m]
          format_0d_nonneg [OF s] format_0d_nonneg [OF c])
qed

lemma srt_time_line_fields:
  assumes "sign_respecting F" and "float_time F t0" and "float_time F t1"
  shows "srt_time_line F t0 t1 =
     hh_mm_ss_mmm (float_int F (float_div F t0 3600))
       (float_int F (float_mod F (float_div F t0 60) 60))
       (float_int F (float_mod F t0 60))
       (float_int F (float_mul F (float_mod F t0 1) 1000)) @ '' --> '' @
     hh_mm_ss_mmm (float_int F (float_div F t1 3600))
       (float_int F (float_mod F (float_div F t1 60) 60))
       (float_int F (float_mod F t1 60))
       (float_int F (float_mul F (float_mod F t1 1) 1000)) @ NL"
  unfolding srt_time_line_def
  using srt_stamp_fields [OF assms(1) assms(2)] srt_stamp_fields [OF assms(1) assms(3)]
  by simp

subsection \<open>The loops\<close>

lemma ass_lines_loop_map:
  "ass_lines_loop F rows lines =
     lines @ map (\<lambda>(t0, t1, ch, tx). ass_line (get_time F t0) (get_time F t1) ch tx) rows"
  by (induction rows arbitrary: lines) auto

lemma write_srt_loop_concat:
  "write_srt_loop F i rows out =
     out @ concat (map (\<lambda>(k, t0, t1, tx).
         str_nat (k + 1) @ NL @ srt_time_line F t0 t1 @
         replace NL [] (replace [CHR 0x5C, CHR ''n''] [] tx) @ NL @ NL)
       (zip [i ..< i + length rows] rows))"
proof (induction rows arbitrary: i out)
  case Nil
  then show ?case by simp
next
  case (Cons r rows)
  obtain t0 t1 tx where r: "r = (t0, t1, tx)" by (cases r) auto
  show ?case
    by (simp add: r Cons.IH Let_def upt_conv_Cons del: upt_Suc)
qed

subsection \<open>The two files\<close>

lemma ass_header_has_style_table:
  "\<exists>pre post. ass_header sz ss =
     pre @ ''[V4+ Styles]'' @ NL @ ass_format_str @ NL @ join NL (map make_ass_style ss) @ post"
  by (rule exI [of _ "''[Script Info]'' @ NL @
     ''; Script generated by FFmpeg/Lavc60.14.101'' @ NL @
     ''ScriptType: v4.00+'' @ NL @
     ''PlayResX: '' @ str_int (fst sz) @ NL @
     ''PlayResY: '' @ str_int (snd sz) @ NL @
     ''ScaledBorderAndShadow: yes'' @ NL @
     ''YCbCr Matrix: None'' @ NL @ NL"],
      rule exI [of _ "NL @ NL @ ''[Events]'' @ NL @
     ''Format: Layer, Start, End, Style, Name, MarginL, MarginR, MarginV, Effect, Text'' @ NL"])
    (simp add: ass_header_def make_ass_style_header_def)

text \<open>
  C5.  For cue rows whose times are non-negative, \<^verbatim>\<open>write_ass_file\<close> writes its header,
  which holds the style table under \<^verbatim>\<open>[V4+ Styles]\<close>, and then one \<^verbatim>\<open>Dialogue\<close> line for each
  row, in order, with the two times as \<^verbatim>\<open>HH:MM:SS.cc\<close> from the fields \<^verbatim>\<open>int(t/3600)\<close>,
  \<^verbatim>\<open>int((t/60)%60)\<close>, \<^verbatim>\<open>int(t%60)\<close> and \<^verbatim>\<open>int((t%1)*100)\<close>; \<^verbatim>\<open>write_srt_file\<close> writes for
  each row, in order, its index counted from 1, the two times as \<^verbatim>\<open>HH:MM:SS,mmm\<close> with the
  field \<^verbatim>\<open>int((t%1)*1000)\<close> for the milliseconds, and the text.  Every field is written in
  decimal digits, with zeros in front up to two digits (three for the milliseconds).
\<close>

theorem subtitle_writers_format:
  assumes sr: "sign_respecting F"
    and times: "\<forall>t \<in> set start_times \<union> set end_times. float_time F t"
    and len: "length start_times = length end_times" "length end_times = length texts"
  shows
    "let cc = (\<lambda>t. hh_mm_ss_cc (float_int F (float_div F t 3600))
                 (float_int F (float_mod F (float_div F t 60) 60))
                 (float_int F (float_mod F t 60))
                 (float_int F (float_mul F (float_mod F t 1) 100)));
         mmm = (\<lambda>t. hh_mm_ss_mmm (float_int F (float_div F t 3600))
                 (float_int F (float_mod F (float_div F t 60) 60))
                 (float_int F (float_mod F t 60))
                 (float_int F (float_mul F (float_mod F t 1) 1000)));
         cs = (case characters of None \<Rightarrow> replicate (length texts) ''Default'' | Some cs \<Rightarrow> cs);
         ss = (case styles of None \<Rightarrow> [ASSStyleType_default] | Some ss \<Rightarrow> ss)
     in write_ass_file F start_times end_times texts sz characters styles =
          Inr (ass_header sz ss @
               join NL (map (\<lambda>(t0, t1, ch, tx).
                    ''Dialogue: 0,'' @ cc t0 @ '','' @ cc t1 @ '','' @ ch @ '',,0,0,0,,'' @ tx)
                  (zip start_times (zip end_times (zip cs texts))))) \<and>
        (\<exists>pre post. ass_header sz ss =
           pre @ ''[V4+ Styles]'' @ NL @ ass_format_str @ NL @
           join NL (map make_ass_style ss) @ post) \<and>
        write_srt_file F start_times end_times texts =
          Inr (concat (map (\<lambda>(i, t0, t1, tx).
                   str_nat (i + 1) @ NL @ mmm t0 @ '' --> '' @ mmm t1 @ NL @
                   replace NL [] (replace [CHR 0x5C, CHR ''n''] [] tx) @ NL @ NL)
                 (zip [0 ..< length texts] (zip start_times (zip end_times texts))))) \<and>
        (\<forall>w n. set (zero_fill w (str_nat n)) \<subseteq> set ''0123456789'' \<and>
               w \<le> length (zero_fill w (str_nat n)) \<and>
               suffix (str_nat n) (zero_fill w (str_nat n)))"
proof -
  define cs where
    "cs = (case characters of None \<Rightarrow> replicate (length texts) ''Default'' | Some cs \<Rightarrow> cs)"
  define ss where "ss = (case styles of None \<Rightarrow> [ASSStyleType_default] | Some ss \<Rightarrow> ss)"
  have t0: "float_time F t" if "t \<in> set start_times" for t using times that by blast
  have t1: "float_time F t" if "t \<in> set end_times" for t using times that by blast
  have ass_rows: "map (\<lambda>(t0, t1, ch, tx). ass_line (get_time F t0) (get_time F t1) ch tx)
        (zip start_times (zip end_times (zip cs texts))) =
      map (\<lambda>(t0, t1, ch, tx).
          ''Dialogue: 0,'' @
          hh_mm_ss_cc (float_int F (float_div F t0 3600))
                 (float_int F (float_mod F (float_div F t0 60) 60))
                 (float_int F (float_mod F t0 60))
                 (float_int F (float_mul F (float_mod F t0 1) 100)) @ '','' @
          hh_mm_ss_cc (float_int F (float_div F t1 3600))
                 (float_int F (float_mod F (float_div F t1 60) 60))
                 (float_int F (float_mod F t1 60))
                 (float_int F (float_mul F (float_mod F t1 1) 100)) @ '','' @ ch @
          '',,0,0,0,,'' @ tx)
        (zip start_times (zip end_times (zip cs texts)))"
  proof (rule map_cong [OF refl])
    fix row assume row: "row \<in> set (zip start_times (zip end_times (zip cs texts)))"
    obtain a b ch tx where r: "row = (a, b, ch, tx)" by (cases row) auto
    from row r have "a \<in> set start_times" by (auto dest: set_zip_leftD)
    then have a: "float_time F a" by (rule t0)
    from row r have "(b, ch, tx) \<in> set (zip end_times (zip cs texts))"
      by (auto dest: set_zip_rightD)
    then have "b \<in> set end_times" by (auto dest: set_zip_leftD)
    then have b: "float_time F b" by (rule t1)
    show "(case row of (t0, t1, ch, tx) \<Rightarrow> ass_line (get_time F t0) (get_time F t1) ch tx) =
      (case row of (t0, t1, ch, tx) \<Rightarrow>
          ''Dialogue: 0,'' @
          hh_mm_ss_cc (float_int F (float_div F t0 3600))
                 (float_int F (float_mod F (float_div F t0 60) 60))
                 (float_int F (float_mod F t0 60))
                 (float_int F (float_mul F (float_mod F t0 1) 100)) @ '','' @
          hh_mm_ss_cc (float_int F (float_div F t1 3600))
                 (float_int F (float_mod F (float_div F t1 60) 60))
                 (float_int F (float_mod F t1 60))
                 (float_int F (float_mul F (float_mod F t1 1) 100)) @ '','' @ ch @
          '',,0,0,0,,'' @ tx)"
      unfolding r by (simp add: ass_line_def get_time_fields [OF sr a] get_time_fields [OF sr b])
  qed
  have ass: "write_ass_file F start_times end_times texts sz characters styles =
      Inr (ass_header sz ss @
           join NL (map (\<lambda>(t0, t1, ch, tx).
          ''Dialogue: 0,'' @
          hh_mm_ss_cc (float_int F (float_div F t0 3600))
                 (float_int F (float_mod F (float_div F t0 60) 60))
                 (float_int F (float_mod F t0 60))
                 (float_int F (float_mul F (float_mod F t0 1) 100)) @ '','' @
          hh_mm_ss_cc (float_int F (float_div F t1 3600))
                 (float_int F (float_mod F (float_div F t1 60) 60))
                 (float_int F (float_mod F t1 60))
                 (float_int F (float_mul F (float_mod F t1 1) 100)) @ '','' @ ch @
          '',,0,0,0,,'' @ tx)
        (zip start_times (zip end_times (zip cs texts)))))"
  proof -
    have 1: "write_ass_file F start_times end_times texts sz characters styles =
        Inr (ass_header sz ss @
             join NL (ass_lines_loop F (zip start_times (zip end_times (zip cs texts))) []))"
      using len by (simp add: write_ass_file_def Let_def cs_def ss_def)
    have 2: "ass_lines_loop F (zip start_times (zip end_times (zip cs texts))) [] =
        map (\<lambda>(t0, t1, ch, tx). ass_line (get_time F t0) (get_time F t1) ch tx)
          (zip start_times (zip end_times (zip cs texts)))"
      by (simp only: ass_lines_loop_map append_Nil)
    show ?thesis by (simp only: 1 2 ass_rows)
  qed
  have srt_rows: "map (\<lambda>(k, t0, t1, tx).
         str_nat (k + 1) @ NL @ srt_time_line F t0 t1 @
         replace NL [] (replace [CHR 0x5C, CHR ''n''] [] tx) @ NL @ NL)
       (zip [0 ..< length texts] (zip start_times (zip end_times texts))) =
     map (\<lambda>(i, t0, t1, tx).
         str_nat (i + 1) @ NL @
         hh_mm_ss_mmm (float_int F (float_div F t0 3600))
                 (float_int F (float_mod F (float_div F t0 60) 60))
                 (float_int F (float_mod F t0 60))
                 (float_int F (float_mul F (float_mod F t0 1) 1000)) @ '' --> '' @
         hh_mm_ss_mmm (float_int F (float_div F t1 3600))
                 (float_int F (float_mod F (float_div F t1 60) 60))
                 (float_int F (float_mod F t1 60))
                 (float_int F (float_mul F (float_mod F t1 1) 1000)) @ NL @
         replace NL [] (replace [CHR 0x5C, CHR ''n''] [] tx) @ NL @ NL)
       (zip [0 ..< length texts] (zip start_times (zip end_times texts)))"
  proof (rule map_cong [OF refl])
    fix row assume row: "row \<in> set (zip [0 ..< length texts] (zip start_times (zip end_times texts)))"
    obtain k a b tx where r: "row = (k, a, b, tx)" by (cases row) auto
    from row r have ab: "(a, b, tx) \<in> set (zip start_times (zip end_times texts))"
      by (auto dest: set_zip_rightD)
    then have "a \<in> set start_times" by (auto dest: set_zip_leftD)
    then have a: "float_time F a" by (rule t0)
    from ab have "(b, tx) \<in> set (zip end_times texts)" by (auto dest: set_zip_rightD)
    then have "b \<in> set end_times" by (auto dest: set_zip_leftD)
    then have b: "float_time F b" by (rule t1)
    show "(case row of (k, t0, t1, tx) \<Rightarrow>
         str_nat (k + 1) @ NL @ srt_time_line F t0 t1 @
         replace NL [] (replace [CHR 0x5C, CHR ''n''] [] tx) @ NL @ NL) =
      (case row of (i, t0, t1, tx) \<Rightarrow>
         str_nat (i + 1) @ NL @
         hh_mm_ss_mmm (float_int F (float_div F t0 3600))
                 (float_int F (float_mod F (float_div F t0 60) 60))
                 (float_int F (float_mod F t0 60))
                 (float_int F (float_mul F (float_mod F t0 1) 1000)) @ '' --> '' @
         hh_mm_ss_mmm (float_int F (float_div F t1 3600))
                 (float_int F (float_mod F (float_div F t1 60) 60))
                 (float_int F (float_mod F t1 60))
                 (float_int F (float_mul F (float_mod F t1 1) 1000)) @ NL @
         replace NL [] (replace [CHR 0x5C, CHR ''n''] [] tx) @ NL @ NL)"
      unfolding r by (simp add: srt_time_line_fields [OF sr a b])
  qed
  have n: "length (zip start_times (zip end_times texts)) = length texts"
    using len by simp
  have srt: "write_srt_file F start_times end_times texts =
      Inr (concat (map (\<lambda>(i, t0, t1, tx).
         str_nat (i + 1) @ NL @
         hh_mm_ss_mmm (float_int F (float_div F t0 3600))
                 (float_int F (float_mod F (float_div F t0 60) 60))
                 (float_int F (float_mod F t0 60))
                 (float_int F (float_mul F (float_mod F t0 1) 1000)) @ '' --> '' @
         hh_mm_ss_mmm (float_int F (float_div F t1 3600))
                 (float_int F (float_mod F (float_div F t1 60) 60))
                 (float_int F (float_mod F t1 60))
                 (float_int F (float_mul F (float_mod F t1 1) 1000)) @ NL @
         replace NL [] (replace [CHR 0x5C, CHR ''n''] [] tx) @ NL @ NL)
       (zip [0 ..< length texts] (zip start_times (zip end_times texts)))))"
  proof -
    have 1: "write_srt_file F start_times end_times texts =
        Inr (write_srt_loop F 0 (zip start_times (zip end_times texts)) [])"
      using len by (simp add: write_srt_file_def)
    have 2: "write_srt_loop F 0 (zip start_times (zip end_times texts)) [] =
        concat (map (\<lambda>(k, t0, t1, tx).
         str_nat (k + 1) @ NL @ srt_time_line F t0 t1 @
         replace NL [] (replace [CHR 0x5C, CHR ''n''] [] tx) @ NL @ NL)
       (zip [0 ..< length texts] (zip start_times (zip end_times texts))))"
      by (simp only: write_srt_loop_concat n append_Nil add_0)
    show ?thesis by (simp only: 1 2 srt_rows)
  qed
  have fill: "\<forall>w n. set (zero_fill w (str_nat n)) \<subseteq> set ''0123456789'' \<and>
               w \<le> length (zero_fill w (str_nat n)) \<and>
               suffix (str_nat n) (zero_fill w (str_nat n))"
    using zero_fill_digits zero_fill_suffix by (simp add: zero_fill_length)
  from ass ass_header_has_style_table [of sz ss] srt fill
  show ?thesis unfolding Let_def cs_def [symmetric] ss_def [symmetric] by (intro conjI)
qed

text \<open>
  Two cues, from 0 to 1.5 seconds and from 1.5 to 3725.5 seconds, with the default
  character and style, in exact arithmetic.
\<close>

theorem subtitle_writers_format_witness:
  "float_time exact_ops 0 \<and> float_time exact_ops (3 / 2) \<and>
   float_time exact_ops (7451 / 2) \<and>
   length [0, 3 / 2 :: real] = length [3 / 2, 7451 / 2 :: real] \<and>
   length [3 / 2, 7451 / 2 :: real] = length [''hello'', ''bye''] \<and>
   write_ass_file exact_ops [0, 3 / 2] [3 / 2, 7451 / 2] [''hello'', ''bye''] (1920, 1080)
       None None =
     Inr (ass_header (1920, 1080) [ASSStyleType_default] @
          ''Dialogue: 0,00:00:00.00,00:00:01.50,Default,,0,0,0,,hello'' @ NL @
          ''Dialogue: 0,00:00:01.50,01:02:05.50,Default,,0,0,0,,bye'') \<and>
   write_srt_file exact_ops [0, 3 / 2] [3 / 2, 7451 / 2] [''hello'', ''bye''] =
     Inr (''1'' @ NL @ ''00:00:00,000 --> 00:00:01,500'' @ NL @ ''hello'' @ NL @ NL @
          ''2'' @ NL @ ''00:00:01,500 --> 01:02:05,500'' @ NL @ ''bye'' @ NL @ NL)"
proof -
  have h1: "\<forall>t \<in> set [0, 3 / 2] \<union> set [3 / 2, 7451 / 2]. float_time exact_ops t"
    by (simp add: exact_ops_def)
  have h2: "length [0, 3 / 2 :: real] = length [3 / 2, 7451 / 2 :: real]" by simp
  have h3: "length [3 / 2, 7451 / 2 :: real] = length [''hello'', ''bye'']" by simp
  have c0: "hh_mm_ss_cc (float_int exact_ops (float_div exact_ops 0 3600))
      (float_int exact_ops (float_mod exact_ops (float_div exact_ops 0 60) 60))
      (float_int exact_ops (float_mod exact_ops 0 60))
      (float_int exact_ops (float_mul exact_ops (float_mod exact_ops 0 1) 100)) = ''00:00:00.00''"
    by code_simp
  have c1: "hh_mm_ss_cc (float_int exact_ops (float_div exact_ops (3 / 2) 3600))
      (float_int exact_ops (float_mod exact_ops (float_div exact_ops (3 / 2) 60) 60))
      (float_int exact_ops (float_mod exact_ops (3 / 2) 60))
      (float_int exact_ops (float_mul exact_ops (float_mod exact_ops (3 / 2) 1) 100)) = ''00:00:01.50''"
    by code_simp
  have c2: "hh_mm_ss_cc (float_int exact_ops (float_div exact_ops (7451 / 2) 3600))
      (float_int exact_ops (float_mod exact_ops (float_div exact_ops (7451 / 2) 60) 60))
      (float_int exact_ops (float_mod exact_ops (7451 / 2) 60))
      (float_int exact_ops (float_mul exact_ops (float_mod exact_ops (7451 / 2) 1) 100)) = ''01:02:05.50''"
    by code_simp
  have m0: "hh_mm_ss_mmm (float_int exact_ops (float_div exact_ops 0 3600))
      (float_int exact_ops (float_mod exact_ops (float_div exact_ops 0 60) 60))
      (float_int exact_ops (float_mod exact_ops 0 60))
      (float_int exact_ops (float_mul exact_ops (float_mod exact_ops 0 1) 1000)) = ''00:00:00,000''"
    by code_simp
  have m1: "hh_mm_ss_mmm (float_int exact_ops (float_div exact_ops (3 / 2) 3600))
      (float_int exact_ops (float_mod exact_ops (float_div exact_ops (3 / 2) 60) 60))
      (float_int exact_ops (float_mod exact_ops (3 / 2) 60))
      (float_int exact_ops (float_mul exact_ops (float_mod exact_ops (3 / 2) 1) 1000)) = ''00:00:01,500''"
    by code_simp
  have m2: "hh_mm_ss_mmm (float_int exact_ops (float_div exact_ops (7451 / 2) 3600))
      (float_int exact_ops (float_mod exact_ops (float_div exact_ops (7451 / 2) 60) 60))
      (float_int exact_ops (float_mod exact_ops (7451 / 2) 60))
      (float_int exact_ops (float_mul exact_ops (float_mod exact_ops (7451 / 2) 1) 1000)) = ''01:02:05,500''"
    by code_simp
  have n1: "str_nat (Suc 0) = ''1''" and n2: "str_nat (Suc (Suc 0)) = ''2''" by code_simp+
  have r1: "replace NL [] (replace [CHR 0x5C, CHR ''n''] [] ''hello'') = ''hello''"
    and r2: "replace NL [] (replace [CHR 0x5C, CHR ''n''] [] ''bye'') = ''bye''"
    by code_simp+
  note t = subtitle_writers_format [where F = exact_ops and start_times = "[0, 3 / 2]"
      and end_times = "[3 / 2, 7451 / 2]" and texts = "[''hello'', ''bye'']"
      and sz = "(1920, 1080)" and characters = None and styles = None,
      OF exact_ops_sign_respecting h1 h2 h3, unfolded Let_def]
  from t [THEN conjunct1]
  have a: "write_ass_file exact_ops [0, 3 / 2] [3 / 2, 7451 / 2] [''hello'', ''bye''] (1920, 1080)
       None None =
     Inr (ass_header (1920, 1080) [ASSStyleType_default] @
          ''Dialogue: 0,00:00:00.00,00:00:01.50,Default,,0,0,0,,hello'' @ NL @
          ''Dialogue: 0,00:00:01.50,01:02:05.50,Default,,0,0,0,,bye'')"
    by (simp add: c0 c1 c2 numeral_2_eq_2)
  from t [THEN conjunct2, THEN conjunct2, THEN conjunct1]
  have b: "write_srt_file exact_ops [0, 3 / 2] [3 / 2, 7451 / 2] [''hello'', ''bye''] =
     Inr (''1'' @ NL @ ''00:00:00,000 --> 00:00:01,500'' @ NL @ ''hello'' @ NL @ NL @
          ''2'' @ NL @ ''00:00:01,500 --> 01:02:05,500'' @ NL @ ''bye'' @ NL @ NL)"
    by (simp add: m0 m1 m2 n1 n2 r1 r2 numeral_2_eq_2 upt_rec)
  have h0: "float_time exact_ops 0" "float_time exact_ops (3 / 2)"
    "float_time exact_ops (7451 / 2)"
    by (simp_all add: exact_ops_def)
  from h0 h2 h3 a b show ?thesis by (intro conjI)
qed


section \<open>Transparency of the frame cache\<close>

lemma render_is_paint:
  "render R V P C n t = paint P C (fingerprint_of R V n t) t"
  "render_children R V P C ns t = map (\<lambda>f. paint P C f t) (fingerprints_of R V ns t)"
  by (induction R V P C n t and R V P C ns t rule: render_render_children.induct) simp_all

lemma cache_ok_empty: "cache_ok P C Map.empty"
  by (simp add: cache_ok_def)

lemma cache_ok_put:
  "cache_ok P C c \<Longrightarrow> b = paint P C f t \<Longrightarrow> cache_ok P C (cache_put c i t f b)"
  by (simp add: cache_ok_def cache_put_def)

lemma cache_ok_invalidate: "cache_ok P C c \<Longrightarrow> cache_ok P C (cache_invalidate c i)"
  by (simp add: cache_ok_def cache_invalidate_def)

lemma cache_ok_get:
  "cache_ok P C c \<Longrightarrow> cache_get c i t = Some (f, b) \<Longrightarrow> b = paint P C f t"
  by (simp add: cache_ok_def cache_get_def)

lemma render_children_cached_sound:
  assumes nodes: "\<And>n c. n \<in> set ns \<Longrightarrow> cache_ok P C c \<Longrightarrow>
      fst (render_cached R V P C E c n t) = render R V P C n t \<and>
      cache_ok P C (snd (render_cached R V P C E c n t))"
    and ok: "cache_ok P C c"
  shows "fst (render_children_cached R V P C E c ns t) = render_children R V P C ns t \<and>
     cache_ok P C (snd (render_children_cached R V P C E c ns t))"
  using nodes ok
proof (induction ns arbitrary: c)
  case Nil
  then show ?case by simp
next
  case (Cons n ns)
  have rest: "fst (render_children_cached R V P C E c' ns t) = render_children R V P C ns t \<and>
     cache_ok P C (snd (render_children_cached R V P C E c' ns t))"
    if "cache_ok P C c'" for c'
    by (rule Cons.IH [OF _ that]) (rule Cons.prems(1), simp_all)
  show ?case
  proof (cases "V (R (own_state n) t)")
    case False
    with rest [OF Cons.prems(2)] show ?thesis by simp
  next
    case True
    obtain b c1 where r1: "render_cached R V P C E c n t = (b, c1)"
      by (cases "render_cached R V P C E c n t")
    obtain bs c2 where r2: "render_children_cached R V P C E c1 ns t = (bs, c2)"
      by (cases "render_children_cached R V P C E c1 ns t")
    from Cons.prems(1) [of n c, OF _ Cons.prems(2)] r1
    have b: "b = render R V P C n t" and ok1: "cache_ok P C c1" by simp_all
    from rest [OF ok1] r2
    have bs: "bs = render_children R V P C ns t" and ok2: "cache_ok P C c2" by simp_all
    from True r1 r2 b bs ok2 show ?thesis by simp
  qed
qed

lemma render_cached_sound:
  "cache_ok P C c \<Longrightarrow>
     fst (render_cached R V P C E c n t) = render R V P C n t \<and>
     cache_ok P C (snd (render_cached R V P C E c n t))"
proof (induction n arbitrary: c)
  case (Layer i a)
  show ?case
  proof (cases "E LAYER")
    case False
    with Layer.prems show ?thesis by (simp add: Let_def)
  next
    case True
    show ?thesis
    proof (cases "cache_get c i t")
      case None
      with True Layer.prems show ?thesis by (simp add: Let_def cache_ok_put)
    next
      case (Some hit)
      obtain f' b where hit: "hit = (f', b)" by (cases hit)
      from cache_ok_get [OF Layer.prems Some [unfolded hit]] have "b = paint P C f' t" .
      with True Some hit Layer.prems show ?thesis by (simp add: Let_def cache_ok_put)
    qed
  qed
next
  case (Composition i a cs)
  obtain bs c' where rc: "render_children_cached R V P C E c cs t = (bs, c')"
    by (cases "render_children_cached R V P C E c cs t")
  have "fst (render_children_cached R V P C E c cs t) = render_children R V P C cs t \<and>
     cache_ok P C (snd (render_children_cached R V P C E c cs t))"
    by (rule render_children_cached_sound [OF _ Composition.prems])
       (rule Composition.IH)
  with rc have bs: "bs = map (\<lambda>f. paint P C f t) (fingerprints_of R V cs t)"
    and ok': "cache_ok P C c'"
    by (simp_all add: render_is_paint)
  show ?case
  proof (cases "E COMPOSITION")
    case False
    with rc bs ok' show ?thesis by (simp add: Let_def render_is_paint)
  next
    case True
    show ?thesis
    proof (cases "cache_get c i t")
      case None
      with True rc bs ok' show ?thesis by (simp add: Let_def cache_ok_put render_is_paint)
    next
      case (Some hit)
      obtain f' b where hit: "hit = (f', b)" by (cases hit)
      from cache_ok_get [OF Composition.prems Some [unfolded hit]]
      have "b = paint P C f' t" .
      with True Some hit Composition.prems rc bs ok' show ?thesis
        by (simp add: Let_def cache_ok_put render_is_paint)
    qed
  qed
qed

lemma session_ok:
  "cache_ok P C c \<Longrightarrow> cache_ok P C (session R V P C E c requests)"
proof (induction requests arbitrary: c)
  case Nil
  then show ?case by simp
next
  case (Cons r rs)
  show ?case
  proof (cases r)
    case (Render n t)
    from render_cached_sound [OF Cons.prems]
    have "cache_ok P C (snd (render_cached R V P C E c n t))" by blast
    from Cons.IH [OF this] Render show ?thesis by simp
  next
    case (Invalidate i)
    from Cons.IH [OF cache_ok_invalidate [OF Cons.prems]] Invalidate show ?thesis by simp
  qed
qed

text \<open>
  C6.  After any render session (renders of any scene graphs at any times, with any edits
  and invalidations between them, started on an empty cache), and for either, both or
  none of the cache scopes enabled, rendering a scene graph at a time with the cache gives
  the buffer that rendering without the cache gives.
\<close>

theorem render_cache_transparent:
  "fst (render_cached resolve visible produce composite enabled
          (session resolve visible produce composite enabled Map.empty requests) n t) =
   render resolve visible produce composite n t"
proof -
  have "cache_ok produce composite
      (session resolve visible produce composite enabled Map.empty requests)"
    by (rule session_ok) (rule cache_ok_empty)
  from render_cached_sound [OF this] show ?thesis by blast
qed

text \<open>
  A session on a composition of three layers, the second one invisible: the graph is
  rendered, a layer is invalidated, an edited graph is rendered, and the first graph is
  rendered again with the cache.  Own states are numbers, a leaf draws its number and a
  composition adds its number to the buffers of its visible children.
\<close>

theorem render_cache_transparent_witness:
  "fst (render_cached (\<lambda>a t. a) (\<lambda>v. v \<noteq> 0) (\<lambda>v t. v) (\<lambda>v t bs. v + sum_list bs)
          (\<lambda>scope. True)
          (session (\<lambda>a t. a) (\<lambda>v. v \<noteq> 0) (\<lambda>v t. v) (\<lambda>v t bs. v + sum_list bs)
             (\<lambda>scope. True) Map.empty
             [Render (Composition 1 10 [Layer 2 3, Layer 3 0, Layer 4 5]) 0,
              Invalidate 2,
              Render (Composition 1 10 [Layer 2 7, Layer 3 0, Layer 4 5]) 0])
          (Composition 1 (10 :: nat) [Layer 2 3, Layer 3 0, Layer 4 5]) 0) = 18 \<and>
   render (\<lambda>a t. a) (\<lambda>v. v \<noteq> 0) (\<lambda>v t. v) (\<lambda>v t bs. v + sum_list bs)
     (Composition 1 (10 :: nat) [Layer 2 3, Layer 3 0, Layer 4 5]) 0 = (18 :: nat)"
proof -
  have r: "render (\<lambda>a t. a) (\<lambda>v. v \<noteq> 0) (\<lambda>v t. v) (\<lambda>v t bs. v + sum_list bs)
     (Composition 1 (10 :: nat) [Layer 2 3, Layer 3 0, Layer 4 5]) 0 = (18 :: nat)"
    by simp
  from render_cache_transparent [where resolve = "\<lambda>a t. a" and visible = "\<lambda>v. v \<noteq> 0"
      and produce = "\<lambda>v t. v" and composite = "\<lambda>v t bs. v + sum_list bs"
      and enabled = "\<lambda>scope. True"
      and n = "Composition 1 (10 :: nat) [Layer 2 3, Layer 3 0, Layer 4 5]" and t = 0
      and requests = "[Render (Composition 1 10 [Layer 2 3, Layer 3 0, Layer 4 5]) 0,
              Invalidate 2,
              Render (Composition 1 10 [Layer 2 7, Layer 3 0, Layer 4 5]) 0]"] r
  show ?thesis by (simp only:) 
qed

text \<open>
  The cache is not idle in this model: once a graph has been rendered, its root is found
  in the cache, and rendering it again neither visits the children nor changes the cache.
\<close>

lemma render_cached_hit:
  assumes "enabled COMPOSITION"
    and "cache_get c i t =
      Some (fingerprint_of resolve visible (Composition i a cs) t, b)"
  shows "render_cached resolve visible produce composite enabled c (Composition i a cs) t =
    (b, c)"
  using assms by (simp add: Let_def del: fingerprint_of.simps)

lemma render_cached_stores:
  assumes "enabled COMPOSITION"
  shows "cache_get
      (snd (render_cached resolve visible produce composite enabled c (Composition i a cs) t))
      i t =
    Some (fingerprint_of resolve visible (Composition i a cs) t,
          fst (render_cached resolve visible produce composite enabled c
                 (Composition i a cs) t))"
proof (cases "cache_get c i t")
  case None
  with assms show ?thesis
    by (simp add: Let_def cache_get_def cache_put_def split: prod.splits
          del: fingerprint_of.simps)
next
  case (Some hit)
  obtain f' b where hit: "hit = (f', b)" by (cases hit)
  with Some assms show ?thesis
    by (simp add: Let_def cache_get_def cache_put_def split: prod.splits
          del: fingerprint_of.simps)
qed

end
